theory Spec2Isabelle
  imports Main "HOL-Library.Word" "HOL-Library.List_Lexorder" "HOL-Library.Char_ord"
begin

unbundle bit_operations_syntax

section \<open>The file-backed input stream (lib/io/src/unix/istream.c)\<close>

text \<open>
  A byte is an \<open>sqfs_u8\<close>. The file descriptor is represented by what the operating
  system will answer to the successive \<open>read\<close> calls made on it: a block of data that is
  ready (a shorter request takes a prefix and leaves the rest for the next call, an empty
  block is a return value of 0), an interruption (\<open>-1\<close> with \<open>errno = EINTR\<close>), or
  another failure. A descriptor with no answers left is at the end of the file.
\<close>

type_synonym byte = "8 word"

datatype read_result = RData "byte list" | REintr | RErr

datatype errno = EINTR | EIO | EOVERFLOW | ENOMEM

text \<open>
  \<open>file_istream_t\<close> together with the fields of its \<open>istream_t\<close> base that
  \<open>file_precache\<close> touches. \<open>buffer\<close> is the array \<open>file->buffer\<close>,
  \<open>buf_off\<close> is the distance \<open>strm->buffer - file->buffer\<close>.
\<close>

record file_istream =
  buffer :: "byte list"
  buf_off :: nat
  buffer_used :: nat
  eof :: bool
  fd :: "read_result list"

text \<open>\<open>read(fd, buf, count)\<close>: the bytes delivered or the error, and the descriptor afterwards.\<close>

fun sys_read :: "read_result list \<Rightarrow> nat \<Rightarrow> (errno + byte list) \<times> read_result list" where
  "sys_read [] count = (Inr [], [])"
| "sys_read (RData bs # rs) count =
     (if length bs \<le> count then (Inr bs, rs)
      else (Inr (take count bs), RData (drop count bs) # rs))"
| "sys_read (REintr # rs) count = (Inl EINTR, rs)"
| "sys_read (RErr # rs) count = (Inl EIO, rs)"

fun fd_weight :: "read_result list \<Rightarrow> nat" where
  "fd_weight [] = 0"
| "fd_weight (RData bs # rs) = Suc (length bs) + fd_weight rs"
| "fd_weight (r # rs) = Suc (fd_weight rs)"

text \<open>
  The bytes a descriptor delivers before it reports the end of the file or an error, however
  the reads are interrupted and however the data is cut into blocks.
\<close>

fun pending :: "read_result list \<Rightarrow> byte list" where
  "pending [] = []"
| "pending (RData bs # rs) = (if bs = [] then [] else bs @ pending rs)"
| "pending (REintr # rs) = pending rs"
| "pending (RErr # rs) = []"

text \<open>The \<open>while (!strm->eof && strm->buffer_used < BUFSZ)\<close> loop of \<open>file_precache\<close>.\<close>

function file_precache_loop :: "nat \<Rightarrow> file_istream \<Rightarrow> int \<times> file_istream" where
  "file_precache_loop BUFSZ s =
     (if \<not> eof s \<and> buffer_used s < BUFSZ then
        (case sys_read (fd s) (BUFSZ - buffer_used s) of
           (Inr bs, rs) \<Rightarrow>
             file_precache_loop BUFSZ
               (s\<lparr>fd := rs,
                  buffer := take (buffer_used s) (buffer s) @ bs
                            @ drop (buffer_used s + length bs) (buffer s),
                  eof := (if length bs = 0 then True else eof s),
                  buffer_used := buffer_used s + length bs\<rparr>)
         | (Inl e, rs) \<Rightarrow>
             (if e = EINTR then file_precache_loop BUFSZ (s\<lparr>fd := rs\<rparr>)
              else (- 1, s\<lparr>fd := rs\<rparr>)))
      else (0, s))"
  by pat_completeness auto
termination
proof (relation "measure (\<lambda>(B, s). fd_weight (fd s) + (if eof s then 0 else 1))", goal_cases)
  case 1
  show ?case by simp
next
  case (2 BUFSZ s x bs rs)
  then show ?case
    by (cases "fd s" rule: fd_weight.cases) (auto split: if_splits)
next
  case (3 BUFSZ s x e rs)
  then show ?case
    by (cases "fd s" rule: fd_weight.cases) (auto split: if_splits)
qed

text \<open>
  \<open>file_precache\<close>. The four \<open>assert\<close>s abort the program when they fail, which is the
  result \<open>None\<close>; the first one, \<open>strm->buffer >= file->buffer\<close>, holds of every
  offset that is a natural number. \<open>memmove\<close> copies the unconsumed window to the front.
\<close>

definition file_precache :: "nat \<Rightarrow> file_istream \<Rightarrow> (int \<times> file_istream) option" where
  "file_precache BUFSZ s =
     (if \<not> buf_off s \<le> BUFSZ then None
      else if \<not> buffer_used s \<le> BUFSZ then None
      else if \<not> buf_off s \<le> BUFSZ - buffer_used s then None
      else
        let s1 = (if buffer_used s > 0
                  then s\<lparr>buffer := take (buffer_used s) (drop (buf_off s) (buffer s))
                                   @ drop (buffer_used s) (buffer s)\<rparr>
                  else s);
            s2 = s1\<lparr>buf_off := 0\<rparr>
        in Some (file_precache_loop BUFSZ s2))"

section \<open>Reading a line from a stream (lib/io/src/get_line.c)\<close>

text \<open>
  A \<open>char\<close> buffer is the list of its bytes up to, and not including, the terminator
  the code keeps at index \<open>line_len\<close>. The C string such a buffer holds ends at the first
  zero byte. \<open>isspace\<close> is the one of the C locale.
\<close>

definition isspace :: "byte \<Rightarrow> bool" where
  "isspace c = (c = 32 \<or> (9 \<le> c \<and> c \<le> 13))"

definition cstr :: "byte list \<Rightarrow> byte list" where
  "cstr b = takeWhile (\<lambda>c. c \<noteq> 0) b"

definition strlen :: "byte list \<Rightarrow> nat" where
  "strlen b = length (cstr b)"

text \<open>\<open>ltrim\<close>: count the leading white space, then move the rest of the string to the front.\<close>

definition ltrim :: "byte list \<Rightarrow> byte list" where
  "ltrim b = (let i = length (takeWhile isspace b)
              in if i > 0 then cstr (drop i b) else b)"

text \<open>The loop \<open>while (i > 0 && isspace(buffer[i - 1])) --i\<close> of \<open>rtrim\<close>.\<close>

fun rtrim_index :: "byte list \<Rightarrow> nat \<Rightarrow> nat" where
  "rtrim_index b 0 = 0"
| "rtrim_index b (Suc i) = (if isspace (b ! i) then rtrim_index b i else Suc i)"

definition rtrim :: "byte list \<Rightarrow> byte list" where
  "rtrim b = take (rtrim_index b (strlen b)) b"

text \<open>
  The three option bits \<open>ISTREAM_LINE_LTRIM\<close>, \<open>ISTREAM_LINE_RTRIM\<close> and
  \<open>ISTREAM_LINE_SKIP_EMPTY\<close> of \<open>flags\<close>; their numeric values are declared outside
  the file, the code only tests each bit.
\<close>

record line_flags =
  LINE_LTRIM :: bool
  LINE_RTRIM :: bool
  LINE_SKIP_EMPTY :: bool

text \<open>
  \<open>trim\<close> returns \<open>strlen(buffer)\<close>, which the caller stores in \<open>line_len\<close>: from
  then on the buffer is the string it holds.
\<close>

definition trim :: "line_flags \<Rightarrow> byte list \<Rightarrow> byte list" where
  "trim flags b =
     (let b1 = (if LINE_LTRIM flags then ltrim b else b);
          b2 = (if LINE_RTRIM flags then rtrim b1 else b1)
      in cstr b2)"

text \<open>
  The stream is used through \<open>istream_get_buffered_data\<close> and
  \<open>istream_advance_buffer\<close>, both declared outside the file. It is represented by the
  answers it gives, one per round of the loop: a negative return value, a positive one
  (end of input), or zero with the bytes \<open>ptr[0..avail)\<close>; the last comes with whether
  the \<open>realloc\<close> that grows the line succeeds and whether advancing the buffer
  succeeds. A stream with no answers left is at the end of its input.
\<close>

datatype stream_step = Get_Error | Get_EOF | Get_Data "byte list" bool bool

text \<open>The result: the return value, \<open>*out\<close> (\<open>None\<close> is \<open>NULL\<close>), \<open>*line_num\<close>, and the stream.\<close>

type_synonym get_line_result = "int \<times> byte list option \<times> nat \<times> stream_step list"

text \<open>The branch \<open>ret > 0\<close> at the top of the loop.\<close>

definition get_line_eof ::
  "line_flags \<Rightarrow> byte list option \<Rightarrow> nat \<Rightarrow> stream_step list \<Rightarrow> get_line_result" where
  "get_line_eof flags line line_num strm =
     (case line of
        None \<Rightarrow> (1, None, line_num, strm)
      | Some l \<Rightarrow>
          if length l = 0 then (1, None, line_num, strm)
          else let l' = trim flags l
               in if length l' > 0 \<or> \<not> LINE_SKIP_EMPTY flags
                  then (0, Some l', line_num, strm)
                  else (1, None, line_num, strm))"

text \<open>The scan \<open>for (i = 0; i < avail; ++i) if (ptr[i] == '\n') break\<close>.\<close>

definition find_newline :: "byte list \<Rightarrow> nat" where
  "find_newline ptr = length (takeWhile (\<lambda>c. c \<noteq> 10) ptr)"

text \<open>\<open>memcpy(line + line_len, ptr, count)\<close> after the \<open>realloc\<close>, \<open>line\<close> possibly \<open>NULL\<close>.\<close>

definition append_chunk :: "byte list option \<Rightarrow> byte list \<Rightarrow> nat \<Rightarrow> byte list" where
  "append_chunk line ptr count = (case line of None \<Rightarrow> [] | Some l \<Rightarrow> l) @ take count ptr"

text \<open>\<open>if (line_len > 0 && line[line_len - 1] == '\r') line[--line_len] = '\0'\<close>.\<close>

definition strip_cr :: "byte list \<Rightarrow> byte list" where
  "strip_cr l = (if length l > 0 \<and> l ! (length l - 1) = 13 then take (length l - 1) l else l)"

text \<open>
  The loop of \<open>istream_get_line\<close>. \<open>line\<close> is \<open>None\<close> for \<open>NULL\<close>;
  \<open>line_len\<close> is its length throughout. Leaving the loop by \<open>break\<close> reaches the final
  \<open>realloc\<close>, whose failure leaves \<open>line\<close> as it is.
\<close>

fun get_line_loop ::
  "line_flags \<Rightarrow> stream_step list \<Rightarrow> byte list option \<Rightarrow> nat \<Rightarrow> get_line_result" where
  "get_line_loop flags [] line line_num = get_line_eof flags line line_num []"
| "get_line_loop flags (Get_EOF # strm) line line_num = get_line_eof flags line line_num strm"
| "get_line_loop flags (Get_Error # strm) line line_num = (- 1, None, line_num, strm)"
| "get_line_loop flags (Get_Data ptr realloc_ok advance_ok # strm) line line_num =
     (let i = find_newline ptr;
          have_line = (i < length ptr);
          count = i
      in if \<not> realloc_ok then (- 1, None, line_num, strm)
         else
           let line1 = append_chunk line ptr count
           in if \<not> advance_ok then (- 1, None, line_num, strm)
              else if have_line then
                let line3 = trim flags (strip_cr line1)
                in if length line3 > 0 \<or> \<not> LINE_SKIP_EMPTY flags
                   then (0, Some line3, line_num, strm)
                   else get_line_loop flags strm None (line_num + 1)
              else get_line_loop flags strm (Some line1) line_num)"

text \<open>
  \<open>istream_get_line\<close>. \<open>shrink_ok\<close> says whether the \<open>realloc\<close> after the loop
  succeeds; the code keeps the old block when it does not, so the line returned is the same.
\<close>

definition istream_get_line ::
  "line_flags \<Rightarrow> bool \<Rightarrow> stream_step list \<Rightarrow> nat \<Rightarrow> get_line_result" where
  "istream_get_line flags shrink_ok strm line_num =
     (case get_line_loop flags strm None line_num of
        (r, out, ln, strm') \<Rightarrow>
          if r = 0 then (if shrink_ok then (0, out, ln, strm') else (0, out, ln, strm'))
          else (r, out, ln, strm'))"

text \<open>
  What a result of \<open>istream_get_line\<close> looks like: the return value is 0, 1 or \<open>-1\<close>;
  with 0 the line is there and holds neither a newline nor a zero byte; otherwise it is \<open>NULL\<close>.
\<close>

definition line_ok :: "get_line_result \<Rightarrow> bool" where
  "line_ok res = (case res of (r, out, ln, strm) \<Rightarrow>
      (r = 0 \<or> r = 1 \<or> r = - 1) \<and>
      (r = 0 \<longrightarrow> (\<exists>l. out = Some l \<and> 10 \<notin> set l \<and> 0 \<notin> set l)) \<and>
      (r \<noteq> 0 \<longrightarrow> out = None))"

section \<open>The tree and the scan options (bin/gensquashfs)\<close>

text \<open>
  File modes. \<open>S_IFMT\<close> and the file types are the constants of the system headers; the
  type and permission bits of a mode fit the 16 bits that \<open>dir_entry.h\<close> gives \<open>mode\<close>.
\<close>

type_synonym mode_t = "16 word"

definition S_IFMT :: mode_t where "S_IFMT = 0xF000"
definition S_IFSOCK :: mode_t where "S_IFSOCK = 0xC000"
definition S_IFLNK :: mode_t where "S_IFLNK = 0xA000"
definition S_IFREG :: mode_t where "S_IFREG = 0x8000"
definition S_IFBLK :: mode_t where "S_IFBLK = 0x6000"
definition S_IFDIR :: mode_t where "S_IFDIR = 0x4000"
definition S_IFCHR :: mode_t where "S_IFCHR = 0x2000"
definition S_IFIFO :: mode_t where "S_IFIFO = 0x1000"

definition S_ISDIR :: "mode_t \<Rightarrow> bool" where
  "S_ISDIR m = (m AND S_IFMT = S_IFDIR)"

definition S_ISLNK :: "mode_t \<Rightarrow> bool" where
  "S_ISLNK m = (m AND S_IFMT = S_IFLNK)"


text \<open>
  \<open>tree_node_t\<close>: the fields the scan reads and writes. The singly linked list
  \<open>data.dir.children\<close> / \<open>next\<close> is the list \<open>children\<close>, head first. A pointer to a
  child of a node is the child's position in that list.
\<close>

datatype tree_node =
  Node (mode: mode_t) (name: string) (mod_time: "32 word") (uid: "32 word") (gid: "32 word")
       (slink_target: "byte list option") (children: "tree_node list")

definition set_children :: "tree_node \<Rightarrow> tree_node list \<Rightarrow> tree_node" where
  "set_children n cs = Node (mode n) (name n) (mod_time n) (uid n) (gid n) (slink_target n) cs"

definition set_mod_time :: "tree_node \<Rightarrow> 32 word \<Rightarrow> tree_node" where
  "set_mod_time n t = Node (mode n) (name n) t (uid n) (gid n) (slink_target n) (children n)"

text \<open>Writing through a pointer to the child at position \<open>i\<close>.\<close>

definition set_child :: "tree_node \<Rightarrow> nat \<Rightarrow> tree_node \<Rightarrow> tree_node" where
  "set_child root i n = set_children root ((children root)[i := n])"

text \<open>\<open>fstree_t\<close>: the scan uses \<open>fs->defaults.mtime\<close> only.\<close>

record fstree =
  defaults_mtime :: "32 word"

text \<open>
  The \<open>DIR_SCAN_*\<close> bits of \<open>flags\<close>. Their values are declared in \<open>mkfs.h\<close>; the
  code tests one bit at a time.
\<close>

record scan_flags =
  DIR_SCAN_KEEP_TIME :: bool
  DIR_SCAN_ONE_FILESYSTEM :: bool
  DIR_SCAN_NO_SOCK :: bool
  DIR_SCAN_NO_SLINK :: bool
  DIR_SCAN_NO_FILE :: bool
  DIR_SCAN_NO_BLK :: bool
  DIR_SCAN_NO_DIR :: bool
  DIR_SCAN_NO_CHR :: bool
  DIR_SCAN_NO_FIFO :: bool
  DIR_SCAN_NO_RECURSION :: bool

text \<open>
  \<open>scan_node_callback\<close>, called as \<open>cb(user, fs, n)\<close>. The walkers rely on its return
  value only, which is taken to depend on the node handed over; \<open>None\<close> is \<open>cb == NULL\<close>.
\<close>

type_synonym scan_node_callback = "tree_node \<Rightarrow> int"

text \<open>
  What the platform decides: the width of \<open>size_t\<close>, which requests \<open>calloc\<close> serves,
  and \<open>sizeof(tree_node_t)\<close>.
\<close>

record platform =
  size_bits :: nat
  calloc_ok :: "nat \<Rightarrow> bool"
  sizeof_node :: nat

definition SIZE_MAX :: "platform \<Rightarrow> int" where
  "SIZE_MAX P = 2 ^ size_bits P - 1"

text \<open>
  The directory being scanned, as the operating system presents it. \<open>struct stat\<close> with
  the fields in use (\<open>off_t\<close> and \<open>time_t\<close> are signed 64-bit values). A directory entry
  comes with the answers to the calls made on its name: \<open>fstatat\<close> without following
  links, the target that \<open>readlinkat\<close> reads, and \<open>openat\<close> with \<open>O_DIRECTORY\<close>;
  \<open>None\<close> is a failing call. A directory has the device \<open>fstat\<close> reports for it (if
  the call succeeds), whether \<open>fdopendir\<close> succeeds, the entries \<open>readdir\<close> returns in
  order, and whether \<open>readdir\<close> ends with an error instead of the end of the directory.
\<close>

record stat =
  st_mode :: mode_t
  st_dev :: "64 word"
  st_size :: "64 word"
  st_mtime :: "64 word"
  st_uid :: "32 word"
  st_gid :: "32 word"

datatype dirent =
  Dirent (d_name: string) (d_stat: "stat option") (d_link: "byte list option") (d_open: "dir option")
and dir =
  Dir (fstat_dev: "64 word option") (fdopendir_ok: bool) (entries: "dirent list") (readdir_fails: bool)

text \<open>Why a scan returns \<open>-1\<close>; \<open>None\<close> stands for the return value 0.\<close>

datatype failure =
  Fail_fdopendir | Fail_readdir | Fail_stat | Fail_errno errno | Fail_readlink | Fail_bad_index
  | Fail_mknode | Fail_callback | Fail_open | Fail_not_a_directory | Fail_fstat


subsection \<open>Tree primitives\<close>

text \<open>
  The time stamp of a node is a 32-bit unsigned value: a negative time becomes 0, one
  above \<open>0xFFFFFFFF\<close> becomes \<open>0xFFFFFFFF\<close> (\<open>add_node\<close>, lines 60 to 66).
\<close>

definition clamp_mtime :: "64 word \<Rightarrow> 32 word" where
  "clamp_mtime t =
     (if sint t < 0 then 0
      else if sint t > 0x0FFFFFFFF then 0xFFFFFFFF
      else ucast t)"

text \<open>
  Modelled from the spec: \<open>fstree_insert_sorted\<close> is not among the files at hand; it is
  to "insert a node into a parent's child list preserving sort order". The node goes
  before the first child whose name is not smaller (\<open>strcmp\<close> order, bytes unsigned).
\<close>

definition insert_index :: "tree_node list \<Rightarrow> string \<Rightarrow> nat" where
  "insert_index cs nm = length (takeWhile (\<lambda>c. name c < nm) cs)"

definition fstree_insert_sorted :: "tree_node \<Rightarrow> tree_node \<Rightarrow> tree_node" where
  "fstree_insert_sorted root n =
     (let i = insert_index (children root) (name n)
      in set_children root (take i (children root) @ n # drop i (children root)))"

text \<open>
  Modelled from the spec: \<open>fstree_mknode\<close> is not among the files at hand; it is to
  "allocate a node from a name and metadata descriptor", the node "carrying name,
  type+permission bits, owner/group ids, timestamp, and (for symlinks) the captured
  target text", already linked into the parent's sorted child list, with the time stamp
  clamped as in the other backend ("this clamp applies identically in both backends").
  The result is the parent and the position of the new child; \<open>None\<close> is \<open>NULL\<close>.
\<close>

definition new_node :: "string \<Rightarrow> byte list option \<Rightarrow> stat \<Rightarrow> tree_node" where
  "new_node nm extra sb =
     Node (st_mode sb) nm (clamp_mtime (st_mtime sb)) (st_uid sb) (st_gid sb)
          (map_option cstr extra) []"

definition fstree_mknode ::
  "platform \<Rightarrow> tree_node \<Rightarrow> string \<Rightarrow> byte list option \<Rightarrow> stat \<Rightarrow> (tree_node \<times> nat) option" where
  "fstree_mknode P parent nm extra sb =
     (if \<not> calloc_ok P (sizeof_node P + length nm + 1
                          + (case extra of None \<Rightarrow> 0 | Some x \<Rightarrow> strlen x + 1))
      then None
      else Some (fstree_insert_sorted parent (new_node nm extra sb),
                 insert_index (children parent) nm))"

text \<open>
  Modelled from the spec: \<open>fstree_get_node_by_path\<close> is not among the files at hand; as
  it is called here it is to "find child of this directory node by exact name". The
  result is the position of the first such child.
\<close>

fun child_index :: "tree_node list \<Rightarrow> string \<Rightarrow> nat option" where
  "child_index [] nm = None"
| "child_index (c # cs) nm =
     (if name c = nm then Some 0 else map_option Suc (child_index cs nm))"

definition fstree_get_node_by_path :: "tree_node \<Rightarrow> string \<Rightarrow> nat option" where
  "fstree_get_node_by_path root nm = child_index (children root) nm"

subsection \<open>The walker for POSIX systems\<close>

text \<open>
  \<open>discard_node\<close>: the node to drop is the child at position \<open>n\<close>. The head is
  unlinked directly; otherwise the list is walked to the node whose \<open>next\<close> is \<open>n\<close>.
  A list that does not hold \<open>n\<close> is left as it is.
\<close>

fun unlink_child :: "tree_node list \<Rightarrow> nat \<Rightarrow> tree_node list" where
  "unlink_child [] n = []"
| "unlink_child (c # cs) 0 = cs"
| "unlink_child (c # cs) (Suc n) = c # unlink_child cs n"

definition discard_node :: "tree_node \<Rightarrow> nat \<Rightarrow> tree_node" where
  "discard_node root n = set_children root (unlink_child (children root) n)"

text \<open>The \<open>switch (sb.st_mode & S_IFMT)\<close> that skips the excluded file types.\<close>

definition type_excluded :: "scan_flags \<Rightarrow> mode_t \<Rightarrow> bool" where
  "type_excluded flags m =
     (let t = m AND S_IFMT in
      if t = S_IFSOCK then DIR_SCAN_NO_SOCK flags
      else if t = S_IFLNK then DIR_SCAN_NO_SLINK flags
      else if t = S_IFREG then DIR_SCAN_NO_FILE flags
      else if t = S_IFBLK then DIR_SCAN_NO_BLK flags
      else if t = S_IFCHR then DIR_SCAN_NO_CHR flags
      else if t = S_IFIFO then DIR_SCAN_NO_FIFO flags
      else False)"

text \<open>
  The macro \<open>SZ_ADD_OV\<close> is declared outside the files at hand: it adds two \<open>size_t\<close>
  values and reports whether the sum left the range. \<open>None\<close> is the overflow.
\<close>

definition SZ_ADD_OV :: "platform \<Rightarrow> int \<Rightarrow> int \<Rightarrow> int option" where
  "SZ_ADD_OV P a b = (if a + b > SIZE_MAX P then None else Some (a + b))"

text \<open>
  \<open>readlinkat(dirfd, name, buf, bufsiz)\<close> on an entry whose link target is \<open>lnk\<close>
  (\<open>None\<close>: the link cannot be read). The call fails with \<open>EINVAL\<close> when
  \<open>bufsiz\<close> is not positive; otherwise it stores the first \<open>bufsiz\<close> bytes of the
  target, without a terminator. \<open>None\<close> is a negative return value.
\<close>

definition sys_readlinkat :: "byte list option \<Rightarrow> nat \<Rightarrow> byte list option" where
  "sys_readlinkat lnk bufsiz =
     (case lnk of
        None \<Rightarrow> None
      | Some tgt \<Rightarrow> if bufsiz = 0 then None else Some (take bufsiz tgt))"

text \<open>
  Lines 276 to 300: the target of a symbolic link. \<open>(size_t)sb.st_size\<close> is the size
  reduced to the width of \<open>size_t\<close>; it is the limit given to \<open>readlinkat\<close>, which
  writes into the zeroed buffer. The store \<open>extra[sb.st_size] = '\0'\<close> lies outside
  the buffer when the size is negative or too large; the C standard gives that no meaning,
  and the model stops with \<open>Fail_bad_index\<close>.
\<close>

definition read_symlink ::
  "platform \<Rightarrow> stat \<Rightarrow> byte list option \<Rightarrow> failure + byte list option" where
  "read_symlink P sb lnk =
     (if S_ISLNK (st_mode sb) then
        if 64 > size_bits P \<and> sint (st_size sb) > SIZE_MAX P then Inl (Fail_errno EOVERFLOW)
        else
          let sz = uint (st_size sb) mod 2 ^ size_bits P in
          case SZ_ADD_OV P sz 1 of
            None \<Rightarrow> Inl (Fail_errno EOVERFLOW)
          | Some size' \<Rightarrow>
              if \<not> calloc_ok P (nat size') then Inl (Fail_errno ENOMEM)
              else
                (case sys_readlinkat lnk (nat sz) of
                   None \<Rightarrow> Inl Fail_readlink
                 | Some written \<Rightarrow>
                     let extra = written @ replicate (nat size' - length written) 0
                     in if sint (st_size sb) < 0 \<or> sint (st_size sb) \<ge> size'
                        then Inl Fail_bad_index
                        else Inr (Some (extra[nat (sint (st_size sb)) := 0])))
      else Inr None)"

text \<open>
  One round of the loop of \<open>populate_dir\<close>, first part (lines 236 to 303): the entry
  is passed over (\<open>continue\<close>), or the scan fails (\<open>goto fail\<close>), or the entry goes
  on with its \<open>stat\<close> result, in which the time stamp is replaced by the default unless
  \<open>DIR_SCAN_KEEP_TIME\<close> is set, and with the link target read for it.
\<close>

datatype filtered = Skip | Fail failure | Pass stat "byte list option"

definition filter_entry ::
  "platform \<Rightarrow> fstree \<Rightarrow> 64 word \<Rightarrow> scan_flags \<Rightarrow> dirent \<Rightarrow> filtered" where
  "filter_entry P fs devstart flags ent =
     (if d_name ent = ''..'' \<or> d_name ent = ''.'' then Skip
      else
        case d_stat ent of
          None \<Rightarrow> Fail Fail_stat
        | Some sb \<Rightarrow>
            if type_excluded flags (st_mode sb) then Skip
            else if DIR_SCAN_ONE_FILESYSTEM flags \<and> st_dev sb \<noteq> devstart then Skip
            else
              case read_symlink P sb (d_link ent) of
                Inl f \<Rightarrow> Fail f
              | Inr extra \<Rightarrow>
                  Pass (if \<not> DIR_SCAN_KEEP_TIME flags
                        then sb\<lparr>st_mtime := ucast (defaults_mtime fs)\<rparr> else sb) extra)"

text \<open>
  Second part (lines 305 to 332), up to the point where the walker may descend: the loop
  goes on with the next entry, or the scan fails, or the node \<open>n\<close> at the given position
  is in the tree and accepted.
\<close>

datatype step = Continue tree_node | Abort failure tree_node | Accepted tree_node nat

definition scan_entry ::
  "platform \<Rightarrow> fstree \<Rightarrow> tree_node \<Rightarrow> 64 word \<Rightarrow> scan_node_callback option \<Rightarrow> scan_flags \<Rightarrow>
   dirent \<Rightarrow> step" where
  "scan_entry P fs root devstart cb flags ent =
     (case filter_entry P fs devstart flags ent of
        Skip \<Rightarrow> Continue root
      | Fail f \<Rightarrow> Abort f root
      | Pass sb extra \<Rightarrow>
          if S_ISDIR (st_mode sb) \<and> DIR_SCAN_NO_DIR flags then
            (case fstree_get_node_by_path root (d_name ent) of
               None \<Rightarrow> Continue root
             | Some n \<Rightarrow> Accepted root n)
          else
            (case fstree_mknode P root (d_name ent) extra sb of
               None \<Rightarrow> Abort Fail_mknode root
             | Some (root', n) \<Rightarrow>
                 let ret = (case cb of None \<Rightarrow> 0 | Some f \<Rightarrow> f (children root' ! n))
                 in if ret < 0 then Abort Fail_callback root'
                    else if ret > 0 then Continue (discard_node root' n)
                    else Accepted root' n))"

text \<open>
  \<open>populate_dir\<close>. \<open>populate_entries\<close> is its loop over the entries that
  \<open>readdir\<close> returns; the recursive call writes into the accepted child.
\<close>

fun populate_entries ::
  "platform \<Rightarrow> fstree \<Rightarrow> 64 word \<Rightarrow> scan_node_callback option \<Rightarrow> scan_flags \<Rightarrow>
   dirent list \<Rightarrow> bool \<Rightarrow> tree_node \<Rightarrow> failure option \<times> tree_node"
and populate_dir ::
  "platform \<Rightarrow> fstree \<Rightarrow> 64 word \<Rightarrow> scan_node_callback option \<Rightarrow> scan_flags \<Rightarrow>
   dir \<Rightarrow> tree_node \<Rightarrow> failure option \<times> tree_node" where
  "populate_entries P fs devstart cb flags [] rd_fails root =
     (if rd_fails then (Some Fail_readdir, root) else (None, root))"
| "populate_entries P fs devstart cb flags (Dirent nm sb lnk sub # es) rd_fails root =
     (case scan_entry P fs root devstart cb flags (Dirent nm sb lnk sub) of
        Continue root' \<Rightarrow> populate_entries P fs devstart cb flags es rd_fails root'
      | Abort f root' \<Rightarrow> (Some f, root')
      | Accepted root' n \<Rightarrow>
          if S_ISDIR (mode (children root' ! n)) \<and> \<not> DIR_SCAN_NO_RECURSION flags then
            (case sub of
               None \<Rightarrow> (Some Fail_open, root')
             | Some childfd \<Rightarrow>
                 (case populate_dir P fs devstart cb flags childfd (children root' ! n) of
                    (Some f, n') \<Rightarrow> (Some f, set_child root' n n')
                  | (None, n') \<Rightarrow>
                      populate_entries P fs devstart cb flags es rd_fails (set_child root' n n')))
          else populate_entries P fs devstart cb flags es rd_fails root')"
| "populate_dir P fs devstart cb flags (Dir dv ok es rd_fails) root =
     (if \<not> ok then (Some Fail_fdopendir, root)
      else populate_entries P fs devstart cb flags es rd_fails root)"

text \<open>
  \<open>open\<close> and \<open>openat\<close> with \<open>O_DIRECTORY\<close>. A path is the list of its components,
  looked up from the directory \<open>os\<close> the process resolves paths in; a name is looked up
  among the entries of a directory.
\<close>

definition sys_openat :: "dir \<Rightarrow> string \<Rightarrow> dir option" where
  "sys_openat d nm = (case find (\<lambda>e. d_name e = nm) (entries d) of
                        None \<Rightarrow> None | Some e \<Rightarrow> d_open e)"

fun sys_open :: "dir \<Rightarrow> string list \<Rightarrow> dir option" where
  "sys_open os [] = Some os"
| "sys_open os (c # cs) = (case sys_openat os c of None \<Rightarrow> None | Some d \<Rightarrow> sys_open d cs)"

text \<open>The entry points of the POSIX walker.\<close>

definition fstree_from_subdir ::
  "platform \<Rightarrow> dir \<Rightarrow> fstree \<Rightarrow> tree_node \<Rightarrow> string list \<Rightarrow> string option \<Rightarrow>
   scan_node_callback option \<Rightarrow> scan_flags \<Rightarrow> failure option \<times> tree_node" where
  "fstree_from_subdir P os fs root path subdir cb flags =
     (if \<not> S_ISDIR (mode root) then (Some Fail_not_a_directory, root)
      else
        case sys_open os path of
          None \<Rightarrow> (Some Fail_open, root)
        | Some fd0 \<Rightarrow>
            (case (case subdir of None \<Rightarrow> Some fd0 | Some s \<Rightarrow> sys_openat fd0 s) of
               None \<Rightarrow> (Some Fail_open, root)
             | Some dirfd \<Rightarrow>
                 (case fstat_dev dirfd of
                    None \<Rightarrow> (Some Fail_fstat, root)
                  | Some dev \<Rightarrow> populate_dir P fs dev cb flags dirfd root)))"

definition fstree_from_dir ::
  "platform \<Rightarrow> dir \<Rightarrow> fstree \<Rightarrow> tree_node \<Rightarrow> string list \<Rightarrow>
   scan_node_callback option \<Rightarrow> scan_flags \<Rightarrow> failure option \<times> tree_node" where
  "fstree_from_dir P os fs root path cb flags =
     fstree_from_subdir P os fs root path None cb flags"

subsection \<open>The portable walker\<close>

text \<open>
  \<open>dir_entry_t\<close> (\<open>dir_entry.h\<close>) with the fields \<open>add_node\<close> reads: the name, the
  16-bit mode and the signed 64-bit modification time.
\<close>

record dir_entry =
  e_name :: string
  e_mode :: mode_t
  e_mtime :: "64 word"

text \<open>
  Modelled from the spec: the directory iterator is not among the files at hand; it
  "produces one directory-entry record at a time (name, type, size, modification time) or
  signals end-of-directory/error". It is run on the same directories as the POSIX walker:
  creating it fails where the path cannot be opened as a directory, and an entry whose
  attributes cannot be read is an error.
\<close>

definition dir_iterator_create :: "dir \<Rightarrow> string list \<Rightarrow> dir option" where
  "dir_iterator_create os path =
     (case sys_open os path of
        None \<Rightarrow> None
      | Some d \<Rightarrow> if fdopendir_ok d then Some d else None)"

definition dir_iterator_next :: "dirent \<Rightarrow> dir_entry option" where
  "dir_iterator_next e =
     (case d_stat e of
        None \<Rightarrow> None
      | Some sb \<Rightarrow> Some \<lparr>e_name = d_name e, e_mode = st_mode sb, e_mtime = st_mtime sb\<rparr>)"

text \<open>
  \<open>add_node\<close>. \<open>is_dot_name\<close> is its test for the names \<open>.\<close> and \<open>..\<close>
  (lines 24 to 30). \<open>calloc\<close> leaves every field of the new node zero; the callback sees
  the node with its mode and name set, before the time stamp is stored and before the
  node is linked.
\<close>

definition is_dot_name :: "string \<Rightarrow> bool" where
  "is_dot_name nm =
     (length nm > 0 \<and> nm ! 0 = CHR ''.'' \<and>
      (length nm = 1 \<or> (nm ! 1 = CHR ''.'' \<and> length nm = 2)))"

definition add_node ::
  "platform \<Rightarrow> fstree \<Rightarrow> tree_node \<Rightarrow> scan_node_callback option \<Rightarrow> scan_flags \<Rightarrow>
   dir_entry \<Rightarrow> int \<times> tree_node" where
  "add_node P fs root cb flags entry =
     (let len = length (e_name entry) in
      if is_dot_name (e_name entry) then (0, root)
      else if (if S_ISDIR (e_mode entry) then DIR_SCAN_NO_DIR flags else DIR_SCAN_NO_FILE flags)
      then (0, root)
      else if \<not> calloc_ok P (sizeof_node P + len + 1) then (- 1, root)
      else
        let n = Node (e_mode entry) (e_name entry) 0 0 0 None [];
            ret = (case cb of None \<Rightarrow> 0 | Some f \<Rightarrow> f n)
        in if ret \<noteq> 0 then (if ret < 0 then ret else 0, root)
           else
             let n' = set_mod_time n
                        (if DIR_SCAN_KEEP_TIME flags then clamp_mtime (e_mtime entry)
                         else defaults_mtime fs)
             in (0, fstree_insert_sorted root n'))"

text \<open>\<open>scan_dir\<close>: the loop over the entries of the iterator, then the function.\<close>

fun scan_dir_loop ::
  "platform \<Rightarrow> fstree \<Rightarrow> scan_node_callback option \<Rightarrow> scan_flags \<Rightarrow>
   dirent list \<Rightarrow> bool \<Rightarrow> tree_node \<Rightarrow> int \<times> tree_node" where
  "scan_dir_loop P fs cb flags [] it_fails root = (if it_fails then (- 1, root) else (0, root))"
| "scan_dir_loop P fs cb flags (e # es) it_fails root =
     (case dir_iterator_next e of
        None \<Rightarrow> (- 1, root)
      | Some ent \<Rightarrow>
          (case add_node P fs root cb flags ent of
             (ret, root') \<Rightarrow>
               if ret \<noteq> 0 then (- 1, root')
               else scan_dir_loop P fs cb flags es it_fails root'))"

definition scan_dir ::
  "platform \<Rightarrow> dir \<Rightarrow> fstree \<Rightarrow> tree_node \<Rightarrow> string list \<Rightarrow> scan_node_callback option \<Rightarrow>
   scan_flags \<Rightarrow> int \<times> tree_node" where
  "scan_dir P os fs root path cb flags =
     (case dir_iterator_create os path of
        None \<Rightarrow> (- 1, root)
      | Some it \<Rightarrow> scan_dir_loop P fs cb flags (entries it) (readdir_fails it) root)"

text \<open>The path as the string the code measures with \<open>strlen\<close>.\<close>

fun path_string :: "string list \<Rightarrow> string" where
  "path_string [] = []"
| "path_string [c] = c"
| "path_string (c # cs) = c @ ''/'' @ path_string cs"

text \<open>
  The loop \<open>for (n = root->data.dir.children; n != NULL; n = n->next)\<close> that ends both
  \<open>fstree_from_dir\<close> and \<open>fstree_from_subdir\<close>: nodes that are not directories are
  passed over, the first failing call ends the loop. \<open>sub\<close> is the call
  \<open>fstree_from_subdir(fs, n, path, n->name, cb, user, flags)\<close>; its result \<open>None\<close>
  means that the call did not finish (see below).
\<close>

fun scan_children ::
  "(tree_node \<Rightarrow> (int \<times> tree_node) option) \<Rightarrow> tree_node list \<Rightarrow> (int \<times> tree_node list) option" where
  "scan_children sub [] = Some (0, [])"
| "scan_children sub (n # ns) =
     (if \<not> S_ISDIR (mode n) then
        (case scan_children sub ns of
           None \<Rightarrow> None
         | Some (r, ns') \<Rightarrow> Some (r, n # ns'))
      else
        (case sub n of
           None \<Rightarrow> None
         | Some (r, n') \<Rightarrow>
             if r \<noteq> 0 then Some (- 1, n' # ns)
             else
               (case scan_children sub ns of
                  None \<Rightarrow> None
                | Some (r', ns') \<Rightarrow> Some (r', n' # ns'))))"

text \<open>
  The body that \<open>fstree_from_dir\<close> and \<open>fstree_from_subdir\<close> share once the path to
  scan is known: \<open>scan_dir\<close>, then, unless recursion is switched off, the loop over the
  children.
\<close>

definition scan_tree ::
  "(tree_node \<Rightarrow> string list \<Rightarrow> (int \<times> tree_node) option) \<Rightarrow>
   platform \<Rightarrow> dir \<Rightarrow> fstree \<Rightarrow> tree_node \<Rightarrow> string list \<Rightarrow>
   scan_node_callback option \<Rightarrow> scan_flags \<Rightarrow> (int \<times> tree_node) option" where
  "scan_tree sub P os fs root path cb flags =
     (case scan_dir P os fs root path cb flags of
        (r, root') \<Rightarrow>
          if r \<noteq> 0 then Some (- 1, root')
          else if DIR_SCAN_NO_RECURSION flags then Some (0, root')
          else
            (case scan_children (\<lambda>n. sub n path) (children root') of
               None \<Rightarrow> None
             | Some (r', cs) \<Rightarrow> Some (if r' \<noteq> 0 then - 1 else 0, set_children root' cs)))"

text \<open>
  \<open>fstree_from_subdir\<close> of the portable walker. The recursion follows the names of the
  tree nodes, so nothing in the code bounds it; the first argument is the number of nested
  calls allowed, and \<open>None\<close> means that this number was not enough. \<open>temp\<close> is
  \<open>path\<close> with the component \<open>subdir\<close> appended. With an empty \<open>subdir\<close> the code
  calls \<open>fstree_from_dir\<close>, whose body is unfolded here.
\<close>

fun fstree_from_subdir_portable ::
  "nat \<Rightarrow> platform \<Rightarrow> dir \<Rightarrow> fstree \<Rightarrow> scan_node_callback option \<Rightarrow> scan_flags \<Rightarrow>
   tree_node \<Rightarrow> string list \<Rightarrow> string option \<Rightarrow> (int \<times> tree_node) option" where
  "fstree_from_subdir_portable 0 P os fs cb flags root path subdir = None"
| "fstree_from_subdir_portable (Suc k) P os fs cb flags root path subdir =
     (let plen = length (path_string path);
          slen = (case subdir of None \<Rightarrow> 0 | Some s \<Rightarrow> length s)
      in if slen = 0 then
           scan_tree (\<lambda>n p. fstree_from_subdir_portable k P os fs cb flags n p (Some (name n)))
             P os fs root path cb flags
         else if \<not> calloc_ok P (plen + 1 + slen + 1) then Some (- 1, root)
         else
           let temp = path @ [the subdir]
           in scan_tree (\<lambda>n p. fstree_from_subdir_portable k P os fs cb flags n p (Some (name n)))
                P os fs root temp cb flags)"

text \<open>\<open>fstree_from_dir\<close> of the portable walker.\<close>

definition fstree_from_dir_portable ::
  "nat \<Rightarrow> platform \<Rightarrow> dir \<Rightarrow> fstree \<Rightarrow> scan_node_callback option \<Rightarrow> scan_flags \<Rightarrow>
   tree_node \<Rightarrow> string list \<Rightarrow> (int \<times> tree_node) option" where
  "fstree_from_dir_portable k P os fs cb flags root path =
     scan_tree (\<lambda>n p. fstree_from_subdir_portable k P os fs cb flags n p (Some (name n)))
       P os fs root path cb flags"

subsection \<open>Directories restricted to one device\<close>

text \<open>
  An entry is foreign to a device when \<open>stat\<close> reports another one for it. Pruning a
  directory removes the foreign entries from it and from the directories below the entries
  that stay; a directory is on a device when it holds no foreign entry at any depth.
\<close>

definition foreign :: "64 word \<Rightarrow> dirent \<Rightarrow> bool" where
  "foreign dev e = (case d_stat e of None \<Rightarrow> False | Some sb \<Rightarrow> st_dev sb \<noteq> dev)"

fun prune_entries :: "64 word \<Rightarrow> dirent list \<Rightarrow> dirent list"
and prune_dirent :: "64 word \<Rightarrow> dirent \<Rightarrow> dirent"
and prune_dir :: "64 word \<Rightarrow> dir \<Rightarrow> dir" where
  "prune_entries dev [] = []"
| "prune_entries dev (e # es) =
     (if foreign dev e then prune_entries dev es else prune_dirent dev e # prune_entries dev es)"
| "prune_dirent dev (Dirent nm sb lnk sub) =
     Dirent nm sb lnk (case sub of None \<Rightarrow> None | Some d \<Rightarrow> Some (prune_dir dev d))"
| "prune_dir dev (Dir dv ok es rd_fails) = Dir dv ok (prune_entries dev es) rd_fails"

fun on_device_entries :: "64 word \<Rightarrow> dirent list \<Rightarrow> bool"
and on_device :: "64 word \<Rightarrow> dir \<Rightarrow> bool" where
  "on_device_entries dev [] = True"
| "on_device_entries dev (Dirent nm sb lnk sub # es) =
     ((case sb of None \<Rightarrow> True | Some s \<Rightarrow> st_dev s = dev) \<and>
      (case sub of None \<Rightarrow> True | Some d \<Rightarrow> on_device dev d) \<and>
      on_device_entries dev es)"
| "on_device dev (Dir dv ok es rd_fails) = on_device_entries dev es"

subsection \<open>Directories of regular files and subdirectories\<close>


definition is_subdir :: "dirent \<Rightarrow> bool" where
  "is_subdir e =
     (d_name e \<noteq> ''.'' \<and> d_name e \<noteq> ''..'' \<and>
      (case d_stat e of None \<Rightarrow> False | Some sb \<Rightarrow> S_ISDIR (st_mode sb)))"



text \<open>
  The owner and group ids of the nodes below a node set to 0, everything else kept:
  \<open>zero_ids\<close> for a node and all below it, \<open>clear_owners\<close> for the nodes below a root.
\<close>

fun zero_ids :: "tree_node \<Rightarrow> tree_node" where
  "zero_ids (Node m nm t u g l cs) = Node m nm t 0 0 l (map zero_ids cs)"


text \<open>
  The tree that belongs to a plain directory, used to compare the two walkers. An entry
  passes when it is not \<open>.\<close> or \<open>..\<close> and its type is not excluded; its node has the
  mode, name, owner and group of the entry and the time stamp of the scan. The children of
  a directory node are the nodes of the entries that pass, each placed before the first
  sibling whose name is not smaller, a subdirectory with its own children unless recursion
  is switched off.
\<close>

definition passes :: "scan_flags \<Rightarrow> dirent \<Rightarrow> bool" where
  "passes flags e =
     (d_name e \<noteq> ''.'' \<and> d_name e \<noteq> ''..'' \<and>
      (case d_stat e of
         None \<Rightarrow> False
       | Some sb \<Rightarrow> \<not> (if S_ISDIR (st_mode sb) then DIR_SCAN_NO_DIR flags
                       else DIR_SCAN_NO_FILE flags)))"

definition leaf :: "fstree \<Rightarrow> scan_flags \<Rightarrow> dirent \<Rightarrow> tree_node" where
  "leaf fs flags e =
     (case d_stat e of
        None \<Rightarrow> Node 0 (d_name e) 0 0 0 None []
      | Some sb \<Rightarrow>
          Node (st_mode sb) (d_name e)
            (if DIR_SCAN_KEEP_TIME flags then clamp_mtime (st_mtime sb) else defaults_mtime fs)
            (st_uid sb) (st_gid sb) None [])"

definition ins_sorted :: "tree_node \<Rightarrow> tree_node list \<Rightarrow> tree_node list" where
  "ins_sorted n cs = take (insert_index cs (name n)) cs @ n # drop (insert_index cs (name n)) cs"

fun tree_entries :: "fstree \<Rightarrow> scan_flags \<Rightarrow> dirent list \<Rightarrow> tree_node list \<Rightarrow> tree_node list"
and tree_entry :: "fstree \<Rightarrow> scan_flags \<Rightarrow> dirent \<Rightarrow> tree_node"
and tree_dir :: "fstree \<Rightarrow> scan_flags \<Rightarrow> dir \<Rightarrow> tree_node list" where
  "tree_entries fs flags [] cs = cs"
| "tree_entries fs flags (e # es) cs =
     tree_entries fs flags es
       (if passes flags e then ins_sorted (tree_entry fs flags e) cs else cs)"
| "tree_entry fs flags (Dirent nm sb lnk sub) =
     set_children (leaf fs flags (Dirent nm sb lnk sub))
       (if is_subdir (Dirent nm sb lnk sub) \<and> \<not> DIR_SCAN_NO_RECURSION flags
        then (case sub of None \<Rightarrow> [] | Some d \<Rightarrow> tree_dir fs flags d) else [])"
| "tree_dir fs flags (Dir dv ok es rd_fails) = tree_entries fs flags es []"


subsection \<open>Sample inputs\<close>

text \<open>
  A 64-bit platform on which every allocation succeeds, a tree whose default time stamp is
  7, the flag word 0, an empty root directory node (mode 040755), and constructors for a
  regular file (mode 0100644) and a directory (mode 040755) on device 1.
\<close>

definition lp64 :: platform where
  "lp64 = \<lparr>size_bits = 64, calloc_ok = (\<lambda>_. True), sizeof_node = 64\<rparr>"

definition fs7 :: fstree where
  "fs7 = \<lparr>defaults_mtime = 7\<rparr>"

definition no_flags :: scan_flags where
  "no_flags = \<lparr>DIR_SCAN_KEEP_TIME = False, DIR_SCAN_ONE_FILESYSTEM = False,
     DIR_SCAN_NO_SOCK = False, DIR_SCAN_NO_SLINK = False, DIR_SCAN_NO_FILE = False,
     DIR_SCAN_NO_BLK = False, DIR_SCAN_NO_DIR = False, DIR_SCAN_NO_CHR = False,
     DIR_SCAN_NO_FIFO = False, DIR_SCAN_NO_RECURSION = False\<rparr>"

definition empty_root :: tree_node where
  "empty_root = Node 0x41ED [] 0 0 0 None []"

definition stat_of :: "mode_t \<Rightarrow> 64 word \<Rightarrow> 64 word \<Rightarrow> stat" where
  "stat_of m dev t = \<lparr>st_mode = m, st_dev = dev, st_size = 0, st_mtime = t, st_uid = 0, st_gid = 0\<rparr>"

definition reg_file :: "string \<Rightarrow> dirent" where
  "reg_file nm = Dirent nm (Some (stat_of 0x81A4 1 100)) None None"

definition directory :: "string \<Rightarrow> dirent list \<Rightarrow> dirent" where
  "directory nm es = Dirent nm (Some (stat_of 0x41ED 1 100)) None (Some (Dir (Some 1) True es False))"


definition abort_y :: scan_node_callback where
  "abort_y n = (if name n = ''y'' then - 1 else 0)"



definition on_dev :: "64 word \<Rightarrow> dirent \<Rightarrow> dirent" where
  "on_dev dev e = Dirent (d_name e) (map_option (\<lambda>sb. sb\<lparr>st_dev := dev\<rparr>) (d_stat e)) (d_link e) (d_open e)"

definition no_dir_flags :: scan_flags where
  "no_dir_flags = no_flags\<lparr>DIR_SCAN_NO_DIR := True\<rparr>"

definition one_fs_flags :: scan_flags where
  "one_fs_flags = no_flags\<lparr>DIR_SCAN_ONE_FILESYSTEM := True\<rparr>"


section \<open>Properties of the input stream\<close>

lemma take_take_le: "n \<le> m \<Longrightarrow> take m xs = take m ys \<Longrightarrow> take n xs = take n ys"
  by (metis min.absorb1 take_take)

lemma file_precache_loop_inv:
  "file_precache_loop BUFSZ s = (r, s') \<Longrightarrow> length (buffer s) = BUFSZ \<Longrightarrow>
   buffer_used s \<le> BUFSZ \<Longrightarrow>
     length (buffer s') = BUFSZ \<and> buf_off s' = buf_off s \<and>
     buffer_used s \<le> buffer_used s' \<and> buffer_used s' \<le> BUFSZ \<and>
     take (buffer_used s) (buffer s') = take (buffer_used s) (buffer s) \<and>
     (r = 0 \<longrightarrow> eof s' \<or> buffer_used s' = BUFSZ) \<and>
     (RErr \<notin> set (fd s) \<longrightarrow> r = 0)"
proof (induction BUFSZ s arbitrary: r s' rule: file_precache_loop.induct)
  case (1 BUFSZ s)
  show ?case
  proof (cases "\<not> eof s \<and> buffer_used s < BUFSZ")
    case False
    with "1.prems" show ?thesis by auto
  next
    case True
    obtain x rs where rd: "sys_read (fd s) (BUFSZ - buffer_used s) = (x, rs)"
      by (cases "sys_read (fd s) (BUFSZ - buffer_used s)")
    have rs_sub: "RErr \<notin> set (fd s) \<Longrightarrow> RErr \<notin> set rs \<and> x \<noteq> Inl EIO"
      using rd by (cases "fd s" rule: fd_weight.cases) (auto split: if_splits dest: in_set_dropD)
    show ?thesis
    proof (cases x)
      case (Inr bs)
      have len: "length bs \<le> BUFSZ - buffer_used s"
        using rd Inr by (cases "fd s" rule: fd_weight.cases) (auto split: if_splits)
      let ?s1 = "s\<lparr>fd := rs,
                  buffer := take (buffer_used s) (buffer s) @ bs
                            @ drop (buffer_used s + length bs) (buffer s),
                  eof := (if length bs = 0 then True else eof s),
                  buffer_used := buffer_used s + length bs\<rparr>"
      have step: "file_precache_loop BUFSZ ?s1 = (r, s')"
        using "1.prems"(1) True rd Inr by (subst (asm) file_precache_loop.simps) simp
      have l1: "length (buffer ?s1) = BUFSZ"
        using len "1.prems"(2) True by auto
      have u1: "buffer_used ?s1 \<le> BUFSZ" using len True by (simp, arith)
      note IH = "1.IH"(2)[OF True rd[symmetric] Inr step l1 u1]
      have tk: "take (buffer_used s) (buffer ?s1) = take (buffer_used s) (buffer s)"
        using "1.prems"(2) True by simp
      have A: "take (buffer_used s + length bs) (buffer s') = take (buffer_used s + length bs) (buffer ?s1)"
        using IH by simp
      have "take (buffer_used s) (buffer s') = take (buffer_used s) (buffer ?s1)"
        by (rule take_take_le[OF _ A]) simp
      also note tk
      finally have pres: "take (buffer_used s) (buffer s') = take (buffer_used s) (buffer s)" .
      from IH pres rs_sub show ?thesis by auto
    next
      case (Inl e)
      show ?thesis
      proof (cases "e = EINTR")
        case True': True
        have step: "file_precache_loop BUFSZ (s\<lparr>fd := rs\<rparr>) = (r, s')"
          using "1.prems"(1) True rd Inl True' by (subst (asm) file_precache_loop.simps) simp
        have "length (buffer (s\<lparr>fd := rs\<rparr>)) = BUFSZ" "buffer_used (s\<lparr>fd := rs\<rparr>) \<le> BUFSZ"
          using "1.prems" by simp_all
        note IH = "1.IH"(1)[OF True rd[symmetric] Inl True' step this]
        from IH "1.prems" rs_sub show ?thesis by auto
      next
        case False
        have "r = - 1 \<and> s' = s\<lparr>fd := rs\<rparr>"
          using "1.prems"(1) True rd Inl False by (subst (asm) file_precache_loop.simps) auto
        moreover have "RErr \<in> set (fd s)"
          using rd Inl False by (cases "fd s" rule: fd_weight.cases) (auto split: if_splits)
        ultimately show ?thesis using "1.prems" by auto
      qed
    qed
  qed
qed


lemma sys_read_pending:
  "sys_read rs0 count = (Inr bs, rs) \<Longrightarrow> 0 < count \<Longrightarrow>
     (bs = [] \<longrightarrow> pending rs0 = []) \<and> (bs \<noteq> [] \<longrightarrow> pending rs0 = bs @ pending rs)"
  by (cases rs0 rule: fd_weight.cases) (auto split: if_splits)

lemma sys_read_eintr:
  "sys_read rs0 count = (Inl EINTR, rs) \<Longrightarrow> pending rs0 = pending rs"
  by (cases rs0 rule: fd_weight.cases) (auto split: if_splits)

lemma file_precache_loop_stop:
  "eof s \<or> \<not> buffer_used s < BUFSZ \<Longrightarrow> file_precache_loop BUFSZ s = (0, s)"
  by (subst file_precache_loop.simps) auto

lemma file_precache_loop_eintr:
  "\<not> eof s \<Longrightarrow> buffer_used s < BUFSZ \<Longrightarrow>
     file_precache_loop BUFSZ (s\<lparr>fd := REintr # fd s\<rparr>) = file_precache_loop BUFSZ s"
  by (subst file_precache_loop.simps) (simp del: file_precache_loop.simps)

lemma file_precache_loop_data:
  "file_precache_loop BUFSZ s = (0, s') \<Longrightarrow> length (buffer s) = BUFSZ \<Longrightarrow>
   buffer_used s \<le> BUFSZ \<Longrightarrow> \<not> eof s \<Longrightarrow>
     take (buffer_used s') (buffer s')
       = take (buffer_used s) (buffer s)
         @ take (buffer_used s' - buffer_used s) (pending (fd s)) \<and>
     buffer_used s' = min BUFSZ (buffer_used s + length (pending (fd s))) \<and>
     eof s' = (buffer_used s + length (pending (fd s)) < BUFSZ)"
proof (induction BUFSZ s arbitrary: s' rule: file_precache_loop.induct)
  case (1 BUFSZ s)
  show ?case
  proof (cases "buffer_used s < BUFSZ")
    case False
    then have "file_precache_loop BUFSZ s = (0, s)" by (simp add: file_precache_loop_stop)
    with "1.prems" False show ?thesis by auto
  next
    case True
    then have cond: "\<not> eof s \<and> buffer_used s < BUFSZ" using "1.prems"(4) by simp
    obtain x rs where rd: "sys_read (fd s) (BUFSZ - buffer_used s) = (x, rs)"
      by (cases "sys_read (fd s) (BUFSZ - buffer_used s)")
    show ?thesis
    proof (cases x)
      case (Inr bs)
      have len: "length bs \<le> BUFSZ - buffer_used s"
        using rd Inr by (cases "fd s" rule: fd_weight.cases) (auto split: if_splits)
      let ?s1 = "s\<lparr>fd := rs,
                  buffer := take (buffer_used s) (buffer s) @ bs
                            @ drop (buffer_used s + length bs) (buffer s),
                  eof := (if length bs = 0 then True else eof s),
                  buffer_used := buffer_used s + length bs\<rparr>"
      have step: "file_precache_loop BUFSZ ?s1 = (0, s')"
        using "1.prems"(1) cond rd Inr by (subst (asm) file_precache_loop.simps) simp
      have l1: "length (buffer ?s1) = BUFSZ"
        using len "1.prems"(2) True by auto
      have u1: "buffer_used ?s1 \<le> BUFSZ" using len True by auto
      from sys_read_pending[OF rd[unfolded Inr]] True
      have pd: "bs = [] \<longrightarrow> pending (fd s) = []"
        "bs \<noteq> [] \<longrightarrow> pending (fd s) = bs @ pending rs"
        by simp_all
      show ?thesis
      proof (cases "bs = []")
        case True': True
        then have "file_precache_loop BUFSZ ?s1 = (0, ?s1)"
          by (simp add: file_precache_loop_stop)
        with step have "s' = ?s1" by simp
        then have "buffer_used s' = buffer_used s" "eof s'" "buffer s' = buffer s"
          using True' by simp_all
        with pd True' True show ?thesis by simp
      next
        case False
        then have ne1: "\<not> eof ?s1" using "1.prems"(4) by simp
        note IH = "1.IH"(2)[OF cond rd[symmetric] Inr step l1 u1 ne1]
        have ge: "buffer_used s + length bs \<le> buffer_used s'"
          using file_precache_loop_inv[OF step l1 u1] by simp
        have front: "take (buffer_used s + length bs) (buffer ?s1)
                       = take (buffer_used s) (buffer s) @ bs"
          using "1.prems"(2,3) by simp
        have p: "pending (fd s) = bs @ pending rs" using pd False by simp
        have tk: "take (buffer_used s' - buffer_used s) (bs @ pending rs)
                    = bs @ take (buffer_used s' - (buffer_used s + length bs)) (pending rs)"
          using ge by simp
        have IHa: "take (buffer_used s') (buffer s')
                     = take (buffer_used s + length bs) (buffer ?s1)
                       @ take (buffer_used s' - (buffer_used s + length bs)) (pending rs)"
          using conjunct1[OF IH] by simp
        have A: "take (buffer_used s') (buffer s')
                   = take (buffer_used s) (buffer s)
                     @ take (buffer_used s' - buffer_used s) (pending (fd s))"
        proof -
          have "take (buffer_used s') (buffer s')
                  = (take (buffer_used s) (buffer s) @ bs)
                    @ take (buffer_used s' - (buffer_used s + length bs)) (pending rs)"
            unfolding IHa front ..
          also have "\<dots> = take (buffer_used s) (buffer s)
                            @ take (buffer_used s' - buffer_used s) (bs @ pending rs)"
            unfolding tk by simp
          finally show ?thesis unfolding p .
        qed
        have B: "buffer_used s' = min BUFSZ (buffer_used s + length (pending (fd s)))"
          using conjunct1[OF conjunct2[OF IH]] by (simp add: p add.assoc)
        have C: "eof s' = (buffer_used s + length (pending (fd s)) < BUFSZ)"
          using conjunct2[OF conjunct2[OF IH]] by (simp add: p add.assoc)
        from A B C show ?thesis by simp
      qed
    next
      case (Inl e)
      show ?thesis
      proof (cases "e = EINTR")
        case True': True
        have step: "file_precache_loop BUFSZ (s\<lparr>fd := rs\<rparr>) = (0, s')"
          using "1.prems"(1) cond rd Inl True' by (subst (asm) file_precache_loop.simps) simp
        have "length (buffer (s\<lparr>fd := rs\<rparr>)) = BUFSZ" "buffer_used (s\<lparr>fd := rs\<rparr>) \<le> BUFSZ"
          "\<not> eof (s\<lparr>fd := rs\<rparr>)"
          using "1.prems" by simp_all
        note IH = "1.IH"(1)[OF cond rd[symmetric] Inl True' step this]
        have pe: "pending (fd s) = pending rs"
          using sys_read_eintr rd Inl True' by simp
        have "fd (s\<lparr>fd := rs\<rparr>) = rs" "buffer (s\<lparr>fd := rs\<rparr>) = buffer s"
          "buffer_used (s\<lparr>fd := rs\<rparr>) = buffer_used s"
          by simp_all
        from IH[unfolded this] show ?thesis unfolding pe .
      next
        case False
        have "file_precache_loop BUFSZ s = (- 1, s\<lparr>fd := rs\<rparr>)"
          using cond rd Inl False by (subst file_precache_loop.simps) simp
        with "1.prems"(1) show ?thesis by simp
      qed
    qed
  qed
qed

lemma file_precache_loop_rc:
  "file_precache_loop BUFSZ s = (r, s') \<Longrightarrow> r = 0 \<or> r = - 1"
proof (induction BUFSZ s arbitrary: r s' rule: file_precache_loop.induct)
  case (1 BUFSZ s)
  show ?case
  proof (cases "\<not> eof s \<and> buffer_used s < BUFSZ")
    case False
    with "1.prems" show ?thesis by (subst (asm) file_precache_loop.simps) auto
  next
    case True
    obtain x rs where rd: "sys_read (fd s) (BUFSZ - buffer_used s) = (x, rs)"
      by (cases "sys_read (fd s) (BUFSZ - buffer_used s)")
    show ?thesis
    proof (cases x)
      case (Inr bs)
      from "1.prems" True rd Inr "1.IH"(2)[OF True rd[symmetric] Inr] show ?thesis
        by (subst (asm) file_precache_loop.simps) simp
    next
      case (Inl e)
      show ?thesis
      proof (cases "e = EINTR")
        case True': True
        from "1.prems" True rd Inl True' "1.IH"(1)[OF True rd[symmetric] Inl True'] show ?thesis
          by (subst (asm) file_precache_loop.simps) simp
      next
        case False
        with "1.prems" True rd Inl show ?thesis
          by (subst (asm) file_precache_loop.simps) auto
      qed
    qed
  qed
qed

text \<open>
  Claim C10. A call of \<open>file_precache\<close> that passes its assertions returns 0 or \<open>-1\<close>.
  When it returns 0, the bytes that were buffered and not yet consumed are the first
  \<open>buffer_used\<close> bytes of the backing array afterwards, and the stream's buffer pointer is
  the start of the array; the number of used bytes has not shrunk and is at most
  \<open>BUFSZ\<close>, and either the end-of-file flag is set or the buffer is full. More precisely
  the used part of the buffer is then the old unconsumed bytes followed by the bytes the
  descriptor delivers, as many as fit: for a stream not yet at the end of the file the new
  count is the smaller of \<open>BUFSZ\<close> and the old count plus the number of bytes the
  descriptor still holds, and the end-of-file flag is set exactly when the buffer could
  take them all with room to spare, that is when a \<open>read\<close> returned 0; for a stream
  already at the end nothing is read. A \<open>read\<close> that fails with \<open>EINTR\<close> is tried
  again: the call returns 0 unless some \<open>read\<close> fails with another error, and an
  interruption before the first \<open>read\<close> changes nothing in the outcome of the call.
\<close>

theorem file_precache_success:
  assumes "length (buffer s) = BUFSZ" and "file_precache BUFSZ s = Some (r, s')"
  shows "(r = 0 \<longrightarrow>
            take (buffer_used s) (buffer s') = take (buffer_used s) (drop (buf_off s) (buffer s)) \<and>
            buf_off s' = 0 \<and> length (buffer s') = BUFSZ \<and>
            buffer_used s \<le> buffer_used s' \<and> buffer_used s' \<le> BUFSZ \<and>
            (eof s' \<or> buffer_used s' = BUFSZ) \<and>
            take (buffer_used s') (buffer s')
              = take (buffer_used s) (drop (buf_off s) (buffer s))
                @ take (buffer_used s' - buffer_used s) (pending (fd s)) \<and>
            (\<not> eof s \<longrightarrow>
               buffer_used s' = min BUFSZ (buffer_used s + length (pending (fd s))) \<and>
               eof s' = (buffer_used s + length (pending (fd s)) < BUFSZ)) \<and>
            (eof s \<longrightarrow> buffer_used s' = buffer_used s \<and> eof s' \<and> fd s' = fd s)) \<and>
         (RErr \<notin> set (fd s) \<longrightarrow> r = 0) \<and>
         (r = 0 \<or> r = - 1) \<and>
         (\<not> eof s \<and> buffer_used s < BUFSZ \<longrightarrow>
            file_precache BUFSZ (s\<lparr>fd := REintr # fd s\<rparr>) = Some (r, s'))"
proof -
  define s2 where "s2 = (if buffer_used s > 0
                  then s\<lparr>buffer := take (buffer_used s) (drop (buf_off s) (buffer s))
                                   @ drop (buffer_used s) (buffer s)\<rparr>
                  else s)\<lparr>buf_off := 0\<rparr>"
  from assms(2) have asserts: "buffer_used s \<le> BUFSZ" "buf_off s \<le> BUFSZ - buffer_used s"
    and loop: "file_precache_loop BUFSZ s2 = (r, s')"
    by (auto simp: file_precache_def s2_def Let_def split: if_splits)
  have used: "buffer_used s2 = buffer_used s" and off: "buf_off s2 = 0" and fds: "fd s2 = fd s"
    and eofs: "eof s2 = eof s"
    by (simp_all add: s2_def)
  have len: "length (buffer s2) = BUFSZ"
    using assms(1) asserts by (auto simp: s2_def)
  have front: "take (buffer_used s) (buffer s2) = take (buffer_used s) (drop (buf_off s) (buffer s))"
    using assms(1) asserts by (auto simp: s2_def)
  have old: "(r = 0 \<longrightarrow>
            take (buffer_used s) (buffer s') = take (buffer_used s) (drop (buf_off s) (buffer s)) \<and>
            buf_off s' = 0 \<and> length (buffer s') = BUFSZ \<and>
            buffer_used s \<le> buffer_used s' \<and> buffer_used s' \<le> BUFSZ \<and>
            (eof s' \<or> buffer_used s' = BUFSZ)) \<and>
         (RErr \<notin> set (fd s) \<longrightarrow> r = 0)"
    using file_precache_loop_inv[OF loop len] asserts(1) used off fds front by simp
  have at_end: "eof s \<longrightarrow> r = 0 \<and> s' = s2"
    using loop eofs by (auto simp: file_precache_loop_stop)
  have data: "r = 0 \<longrightarrow> \<not> eof s \<longrightarrow>
            take (buffer_used s') (buffer s')
              = take (buffer_used s) (drop (buf_off s) (buffer s))
                @ take (buffer_used s' - buffer_used s) (pending (fd s)) \<and>
            buffer_used s' = min BUFSZ (buffer_used s + length (pending (fd s))) \<and>
            eof s' = (buffer_used s + length (pending (fd s)) < BUFSZ)"
  proof (intro impI)
    assume "r = 0" and ne: "\<not> eof s"
    with loop have l0: "file_precache_loop BUFSZ s2 = (0, s')" by simp
    have "buffer_used s2 \<le> BUFSZ" "\<not> eof s2" using asserts(1) ne by (simp_all add: used eofs)
    from file_precache_loop_data[OF l0 len this, unfolded used fds front]
    show "take (buffer_used s') (buffer s')
              = take (buffer_used s) (drop (buf_off s) (buffer s))
                @ take (buffer_used s' - buffer_used s) (pending (fd s)) \<and>
            buffer_used s' = min BUFSZ (buffer_used s + length (pending (fd s))) \<and>
            eof s' = (buffer_used s + length (pending (fd s)) < BUFSZ)"
      by blast
  qed
  have data_end: "eof s \<longrightarrow>
            take (buffer_used s') (buffer s')
              = take (buffer_used s) (drop (buf_off s) (buffer s))
                @ take (buffer_used s' - buffer_used s) (pending (fd s)) \<and>
            buffer_used s' = buffer_used s \<and> eof s' \<and> fd s' = fd s"
    using at_end front by (auto simp: used fds eofs)
  have rcs: "r = 0 \<or> r = - 1" by (rule file_precache_loop_rc[OF loop])
  have eintr: "\<not> eof s \<and> buffer_used s < BUFSZ \<longrightarrow>
            file_precache BUFSZ (s\<lparr>fd := REintr # fd s\<rparr>) = Some (r, s')"
  proof
    assume c: "\<not> eof s \<and> buffer_used s < BUFSZ"
    then have c2: "\<not> eof s2" "buffer_used s2 < BUFSZ" by (simp_all add: used eofs)
    have "file_precache BUFSZ (s\<lparr>fd := REintr # fd s\<rparr>)
            = Some (file_precache_loop BUFSZ (s2\<lparr>fd := REintr # fd s2\<rparr>))"
      using asserts
      by (cases s) (auto simp: file_precache_def s2_def Let_def simp del: file_precache_loop.simps)
    also have "\<dots> = Some (r, s')"
      using file_precache_loop_eintr[OF c2] loop by simp
    finally show "file_precache BUFSZ (s\<lparr>fd := REintr # fd s\<rparr>) = Some (r, s')" .
  qed
  from old data data_end rcs eintr show ?thesis by blast
qed

theorem file_precache_success_witness:
  "length (buffer \<lparr>buffer = [1, 2, 3, 4], buf_off = 2, buffer_used = 2, eof = False,
                   fd = [REintr, RData [9, 8]]\<rparr>) = 4 \<and>
   file_precache 4 \<lparr>buffer = [1, 2, 3, 4], buf_off = 2, buffer_used = 2, eof = False,
                    fd = [REintr, RData [9, 8]]\<rparr>
     = Some (0, \<lparr>buffer = [3, 4, 9, 8], buf_off = 0, buffer_used = 4, eof = False, fd = []\<rparr>) \<and>
   file_precache 4 \<lparr>buffer = [1, 2, 3, 4], buf_off = 2, buffer_used = 2, eof = False,
                    fd = [REintr, REintr, RData [9, 8]]\<rparr>
     = Some (0, \<lparr>buffer = [3, 4, 9, 8], buf_off = 0, buffer_used = 4, eof = False, fd = []\<rparr>) \<and>
   pending [REintr, RData [9, 8]] = [9, 8] \<and>
   take 2 [3, 4, 9, 8 :: byte] = take 2 (drop 2 [1, 2, 3, 4])"
proof -
  let ?s = "\<lparr>buffer = [1, 2, 3, 4], buf_off = 2, buffer_used = 2, eof = False,
             fd = [REintr, RData [9, 8]]\<rparr> :: file_istream"
  let ?s' = "\<lparr>buffer = [3, 4, 9, 8], buf_off = 0, buffer_used = 4, eof = False, fd = []\<rparr>
             :: file_istream"
  have h1: "length (buffer ?s) = 4" by simp
  have h2: "file_precache 4 ?s = Some (0, ?s')" by (simp add: file_precache_def)
  have c: "\<not> eof ?s \<and> buffer_used ?s < 4" by simp
  from file_precache_success[OF h1 h2] c
  have "file_precache 4 (?s\<lparr>fd := REintr # fd ?s\<rparr>) = Some (0, ?s')" by blast
  then have h3: "file_precache 4 \<lparr>buffer = [1, 2, 3, 4], buf_off = 2, buffer_used = 2, eof = False,
                    fd = [REintr, REintr, RData [9, 8]]\<rparr> = Some (0, ?s')"
    by simp
  from h1 h2 h3 show ?thesis by simp
qed


section \<open>Properties of reading a line\<close>

lemma cstr_subset: "set (cstr b) \<subseteq> set b"
  by (auto simp: cstr_def dest: set_takeWhileD)

lemma cstr_no_nul: "0 \<notin> set (cstr b)"
  by (auto simp: cstr_def dest: set_takeWhileD)

lemma trim_subset: "set (trim flags b) \<subseteq> set b"
proof -
  have l: "set (ltrim b) \<subseteq> set b" for b
    using cstr_subset[of "drop (length (takeWhile isspace b)) b"]
    by (auto simp: ltrim_def Let_def dest: in_set_dropD)
  have r: "set (rtrim b) \<subseteq> set b" for b
    by (auto simp: rtrim_def dest: in_set_takeD)
  show ?thesis
    using l[of b] r[of b] r[of "ltrim b"] cstr_subset
    by (auto simp: trim_def Let_def) blast+
qed

lemma trim_no_nul: "0 \<notin> set (trim flags b)"
  by (simp add: trim_def Let_def cstr_no_nul)

lemma append_chunk_no_nl:
  "(\<And>l. line = Some l \<Longrightarrow> 10 \<notin> set l) \<Longrightarrow> 10 \<notin> set (append_chunk line ptr (find_newline ptr))"
proof -
  have tk: "take (length (takeWhile (\<lambda>c. c \<noteq> 10) ptr)) ptr = takeWhile (\<lambda>c. c \<noteq> 10) ptr"
    by (metis takeWhile_eq_take)
  show "(\<And>l. line = Some l \<Longrightarrow> 10 \<notin> set l) \<Longrightarrow> ?thesis"
    by (auto simp: append_chunk_def find_newline_def tk split: option.splits dest: set_takeWhileD)
qed

lemma strip_cr_subset: "set (strip_cr l) \<subseteq> set l"
  by (auto simp: strip_cr_def dest: in_set_takeD)

lemma get_line_eof_ok:
  "(\<And>l. line = Some l \<Longrightarrow> 10 \<notin> set l) \<Longrightarrow> line_ok (get_line_eof flags line ln strm)"
  using trim_subset trim_no_nul
  by (auto simp: get_line_eof_def line_ok_def Let_def split: option.splits)

lemma get_line_loop_ok:
  "(\<And>l. line = Some l \<Longrightarrow> 10 \<notin> set l) \<Longrightarrow> line_ok (get_line_loop flags strm line ln)"
proof (induction flags strm line ln rule: get_line_loop.induct)
  case (1 flags line line_num)
  then show ?case by (simp add: get_line_eof_ok)
next
  case (2 flags strm line line_num)
  then show ?case by (simp add: get_line_eof_ok)
next
  case (3 flags strm line line_num)
  then show ?case by (simp add: line_ok_def)
next
  case (4 flags ptr realloc_ok advance_ok strm line line_num)
  let ?l1 = "append_chunk line ptr (find_newline ptr)"
  let ?l3 = "trim flags (strip_cr ?l1)"
  have l1: "10 \<notin> set ?l1"
    using "4.prems" by (rule append_chunk_no_nl)
  have l3: "10 \<notin> set ?l3" "0 \<notin> set ?l3"
    using l1 trim_subset[of flags "strip_cr ?l1"] strip_cr_subset[of ?l1] trim_no_nul by auto
  show ?case
  proof (cases "realloc_ok \<and> advance_ok")
    case False
    then show ?thesis by (auto simp: line_ok_def Let_def)
  next
    case ok: True
    show ?thesis
    proof (cases "find_newline ptr < length ptr")
      case True
      show ?thesis
      proof (cases "length ?l3 > 0 \<or> \<not> LINE_SKIP_EMPTY flags")
        case True': True
        have "get_line_loop flags (Get_Data ptr realloc_ok advance_ok # strm) line line_num
              = (0, Some ?l3, line_num, strm)"
          using ok True True' by (simp add: Let_def)
        then show ?thesis using l3 by (simp add: line_ok_def)
      next
        case False
        have "get_line_loop flags (Get_Data ptr realloc_ok advance_ok # strm) line line_num
              = get_line_loop flags strm None (line_num + 1)"
          using ok True False by (simp add: Let_def)
        moreover have "line_ok (get_line_loop flags strm None (line_num + 1))"
          using ok True False
          by (intro "4.IH"(1)[OF refl refl refl _ refl _ _ refl]) auto
        ultimately show ?thesis by simp
      qed
    next
      case False
      have "get_line_loop flags (Get_Data ptr realloc_ok advance_ok # strm) line line_num
              = get_line_loop flags strm (Some ?l1) line_num"
        using ok False by (simp add: Let_def)
      moreover have "line_ok (get_line_loop flags strm (Some ?l1) line_num)"
        using ok False l1
        by (intro "4.IH"(2)[OF refl refl refl _ refl _ _ ]) auto
      ultimately show ?thesis by simp
    qed
  qed
qed


text \<open>
  Claim C9, as the code has it. Every call returns 0, 1 or \<open>-1\<close>. With 0, \<open>*out\<close>
  is a string that holds no newline and no zero byte before its terminator; with any other
  value \<open>*out\<close> is \<open>NULL\<close>. When the data read after the pending part of a line is
  \<open>l\<close>, a carriage return and a newline, the carriage return is dropped first and the
  pending part followed by \<open>l\<close> is then trimmed. At the end of the input with no pending
  line data the result is 1. A failing read, a failure of the \<open>realloc\<close> that grows the
  line and a failure to advance the buffer each give \<open>-1\<close> with the partial line dropped.
  The \<open>realloc\<close> after the loop, which shrinks the finished line, is the exception: when it
  fails the call returns what it returns when it succeeds.
\<close>

theorem istream_get_line_contract:
  "(case istream_get_line flags shrink_ok strm ln of (r, out, ln', strm') \<Rightarrow>
      (r = 0 \<or> r = 1 \<or> r = - 1) \<and>
      (r = 0 \<longrightarrow> (\<exists>l. out = Some l \<and> 10 \<notin> set l \<and> 0 \<notin> set l)) \<and>
      (r \<noteq> 0 \<longrightarrow> out = None)) \<and>
   (10 \<notin> set l \<and> (trim flags (append_chunk line l (length l)) \<noteq> [] \<or> \<not> LINE_SKIP_EMPTY flags) \<longrightarrow>
      get_line_loop flags (Get_Data (l @ [13, 10] @ rest) True True # strm) line ln
        = (0, Some (trim flags (append_chunk line l (length l))), ln, strm)) \<and>
   (line = None \<or> line = Some [] \<longrightarrow>
      get_line_loop flags [] line ln = (1, None, ln, []) \<and>
      get_line_loop flags (Get_EOF # strm) line ln = (1, None, ln, strm)) \<and>
   get_line_loop flags (Get_Error # strm) line ln = (- 1, None, ln, strm) \<and>
   get_line_loop flags (Get_Data ptr False advance_ok # strm) line ln = (- 1, None, ln, strm) \<and>
   get_line_loop flags (Get_Data ptr True False # strm) line ln = (- 1, None, ln, strm) \<and>
   istream_get_line flags False strm ln = istream_get_line flags True strm ln"
proof -
  have A: "line_ok (istream_get_line flags shrink_ok strm ln)"
    using get_line_loop_ok[of None flags strm ln]
    by (auto simp: istream_get_line_def line_ok_def split: prod.splits)
  have fn: "find_newline (l @ 13 # 10 # rest) = Suc (length l)" if "10 \<notin> set l"
  proof -
    have "takeWhile (\<lambda>c. c \<noteq> 10) (l @ [13, 10] @ rest) = l @ [13 :: byte]"
      using that by (subst takeWhile_append2) auto
    then show ?thesis by (simp add: find_newline_def)
  qed
  have sc: "strip_cr (append_chunk line (l @ 13 # 10 # rest) (Suc (length l)))
              = append_chunk line l (length l)"
    by (simp add: strip_cr_def append_chunk_def nth_append)
  have B: "10 \<notin> set l \<and> (trim flags (append_chunk line l (length l)) \<noteq> [] \<or> \<not> LINE_SKIP_EMPTY flags) \<longrightarrow>
      get_line_loop flags (Get_Data (l @ [13, 10] @ rest) True True # strm) line ln
        = (0, Some (trim flags (append_chunk line l (length l))), ln, strm)"
    by (auto simp: fn sc Let_def)
  have C: "line = None \<or> line = Some [] \<longrightarrow>
      get_line_loop flags [] line ln = (1, None, ln, []) \<and>
      get_line_loop flags (Get_EOF # strm) line ln = (1, None, ln, strm)"
    by (auto simp: get_line_eof_def)
  have D: "get_line_loop flags (Get_Data ptr False advance_ok # strm) line ln = (- 1, None, ln, strm)"
     "get_line_loop flags (Get_Data ptr True False # strm) line ln = (- 1, None, ln, strm)"
    by (simp_all add: Let_def)
  have E: "istream_get_line flags False strm ln = istream_get_line flags True strm ln"
    by (simp add: istream_get_line_def split: prod.splits)
  from A B C D E show ?thesis
    unfolding line_ok_def by simp
qed

theorem istream_get_line_contract_witness:
  "istream_get_line \<lparr>LINE_LTRIM = True, LINE_RTRIM = True, LINE_SKIP_EMPTY = True\<rparr> True
     [Get_Data ([32, 97, 98, 32] @ [13, 10] @ [99]) True True] 0 = (0, Some [97, 98], 0, []) \<and>
   10 \<notin> set [32, 97, 98, 32 :: byte] \<and>
   get_line_loop \<lparr>LINE_LTRIM = True, LINE_RTRIM = True, LINE_SKIP_EMPTY = True\<rparr> [] (Some []) 0
     = (1, None, 0, [])"
  using istream_get_line_contract[of "\<lparr>LINE_LTRIM = True, LINE_RTRIM = True, LINE_SKIP_EMPTY = True\<rparr>"
      True "[Get_Data ([32, 97, 98, 32] @ [13, 10] @ [99]) True True]" 0
      "[32, 97, 98, 32]" "Some []" "[99]" "[]"]
  by (simp add: istream_get_line_def append_chunk_def trim_def ltrim_def rtrim_def cstr_def
        strlen_def isspace_def find_newline_def strip_cr_def Let_def)

text \<open>
  Claim C9 as stated says that every allocation failure gives a negative return value. Here
  the \<open>realloc\<close> after the loop fails and the call returns 0 with the line.
\<close>

theorem istream_get_line_shrink_failure:
  "istream_get_line \<lparr>LINE_LTRIM = False, LINE_RTRIM = False, LINE_SKIP_EMPTY = False\<rparr> False
     [Get_Data [97, 98, 10] True True] 0 = (0, Some [97, 98], 0, [])"
  by (simp add: istream_get_line_def append_chunk_def trim_def cstr_def
        find_newline_def strip_cr_def Let_def)



section \<open>Properties of the walkers\<close>

lemma clamp_mtime_unat:
  "unat (clamp_mtime t) =
     (if sint t < 0 then 0 else if sint t > 4294967295 then 4294967295 else nat (sint t))"
proof -
  have "unat (ucast t :: 32 word) = nat (sint t)" if "0 \<le> sint t" "sint t \<le> 4294967295"
  proof -
    have u: "uint t = sint t"
      using uint_sint[of t] sint_lt[of t] that(1) by (simp add: take_bit_int_eq_self)
    have "uint (ucast t :: 32 word) = take_bit 32 (uint t)"
      by (simp add: unsigned_ucast_eq)
    also have "\<dots> = uint t" using u that by (simp add: take_bit_int_eq_self)
    finally show ?thesis using u by (simp add: unat_eq_nat_uint)
  qed
  then show ?thesis by (auto simp: clamp_mtime_def)
qed

lemma sint_ucast_32_64: "sint (ucast (d :: 32 word) :: 64 word) = uint d"
proof -
  have b: "uint d < 2 ^ 32" "0 \<le> uint d" using uint_lt2p[of d] by simp_all
  have a: "uint (ucast d :: 64 word) = uint d"
    by (rule uint_up_ucast) (simp add: is_up)
  have "- (2 ^ 63) \<le> (0 :: int)" by simp
  then have "- (2 ^ 63) \<le> uint d" by (rule order_trans) simp
  moreover have "uint d < 2 ^ 63" using b(1) by simp
  ultimately
  have "signed_take_bit 63 (uint d) = uint d"
    by (rule signed_take_bit_int_eq_self)
  then show ?thesis
    using a by (simp add: sint_uint)
qed

lemma clamp_mtime_default: "clamp_mtime (ucast (d :: 32 word)) = d"
proof -
  have b: "uint d < 2 ^ 32" using uint_lt2p[of d] by simp
  have "ucast (ucast d :: 64 word) = d"
    by (rule ucast_up_ucast_id) (simp add: is_up)
  then show ?thesis using b by (simp add: clamp_mtime_def sint_ucast_32_64)
qed


lemma insert_index_le: "insert_index cs nm \<le> length cs"
  by (simp add: insert_index_def length_takeWhile_le)

lemma children_set_children [simp]: "children (set_children n cs) = cs"
  by (simp add: set_children_def)

lemma fields_set_children [simp]:
  "mode (set_children n cs) = mode n" "name (set_children n cs) = name n"
  "mod_time (set_children n cs) = mod_time n" "uid (set_children n cs) = uid n"
  "gid (set_children n cs) = gid n" "slink_target (set_children n cs) = slink_target n"
  by (simp_all add: set_children_def)

lemma children_insert_sorted:
  "children (fstree_insert_sorted root n)
     = take (insert_index (children root) (name n)) (children root) @ n
       # drop (insert_index (children root) (name n)) (children root)"
  by (simp add: fstree_insert_sorted_def Let_def)

lemma nth_insert_sorted:
  "children (fstree_insert_sorted root n) ! insert_index (children root) (name n) = n"
  using insert_index_le[of "children root" "name n"]
  by (simp add: children_insert_sorted nth_append)

lemma fields_new_node [simp]:
  "mode (new_node nm extra sb) = st_mode sb" "name (new_node nm extra sb) = nm"
  "mod_time (new_node nm extra sb) = clamp_mtime (st_mtime sb)"
  "children (new_node nm extra sb) = []"
  "uid (new_node nm extra sb) = st_uid sb" "gid (new_node nm extra sb) = st_gid sb"
  "slink_target (new_node nm extra sb) = map_option cstr extra"
  by (simp_all add: new_node_def)


lemma child_index_Some:
  "child_index cs nm = Some i \<Longrightarrow> i < length cs \<and> name (cs ! i) = nm"
proof (induction cs arbitrary: i)
  case Nil
  then show ?case by simp
next
  case (Cons c cs)
  then show ?case by (auto split: if_splits)
qed

lemma populate_entries_Cons:
  "populate_entries P fs devstart cb flags (ent # es) rd_fails root =
     (case scan_entry P fs root devstart cb flags ent of
        Continue root' \<Rightarrow> populate_entries P fs devstart cb flags es rd_fails root'
      | Abort f root' \<Rightarrow> (Some f, root')
      | Accepted root' n \<Rightarrow>
          if S_ISDIR (mode (children root' ! n)) \<and> \<not> DIR_SCAN_NO_RECURSION flags then
            (case d_open ent of
               None \<Rightarrow> (Some Fail_open, root')
             | Some childfd \<Rightarrow>
                 (case populate_dir P fs devstart cb flags childfd (children root' ! n) of
                    (Some f, n') \<Rightarrow> (Some f, set_child root' n n')
                  | (None, n') \<Rightarrow>
                      populate_entries P fs devstart cb flags es rd_fails (set_child root' n n')))
          else populate_entries P fs devstart cb flags es rd_fails root')"
  by (cases ent, hypsubst, simp split: step.split)

text \<open>
  Claim C4. The time stamp stored for a value \<open>t\<close> that is kept is 0 for a negative
  \<open>t\<close>, the largest 32-bit value for a \<open>t\<close> above it, and \<open>t\<close> itself otherwise.
  An entry that \<open>add_node\<close> of the portable walker does not pass over, for which the
  node can be allocated and the callback returns 0, is added to the tree as a node with the
  entry's mode and name and with that value of the entry's time when
  \<open>DIR_SCAN_KEEP_TIME\<close> is set, with the default of the tree when it is not. In the
  POSIX walker an entry that passes the filters of \<open>populate_dir\<close> goes on with its
  \<open>stat\<close> result, in which the time is left as it is when \<open>DIR_SCAN_KEEP_TIME\<close> is
  set and replaced by the default when it is not: \<open>populate_dir\<close> itself does not bring
  the time into the 32-bit range. That is left to \<open>fstree_mknode\<close>, which stores the
  value as the specification describes it; the default comes back unchanged from there. When
  the callback returns 0 the round ends with the node accepted in the tree, carrying the
  same time stamp as in the portable walker.
\<close>

theorem timestamp_policy:
  "unat (clamp_mtime t) =
     (if sint t < 0 then 0 else if sint t > 4294967295 then 4294967295 else nat (sint t)) \<and>
   (\<not> is_dot_name (e_name entry) \<and>
    \<not> (if S_ISDIR (e_mode entry) then DIR_SCAN_NO_DIR flags else DIR_SCAN_NO_FILE flags) \<and>
    calloc_ok P (sizeof_node P + length (e_name entry) + 1) \<and>
    (case cb of None \<Rightarrow> 0 | Some f \<Rightarrow> f (Node (e_mode entry) (e_name entry) 0 0 0 None [])) = 0 \<longrightarrow>
      add_node P fs root cb flags entry =
        (0, fstree_insert_sorted root
              (Node (e_mode entry) (e_name entry)
                 (if DIR_SCAN_KEEP_TIME flags then clamp_mtime (e_mtime entry)
                  else defaults_mtime fs) 0 0 None []))) \<and>
   (d_name ent \<noteq> ''..'' \<and> d_name ent \<noteq> ''.'' \<and> d_stat ent = Some sb \<and>
    \<not> type_excluded flags (st_mode sb) \<and>
    \<not> (DIR_SCAN_ONE_FILESYSTEM flags \<and> st_dev sb \<noteq> devstart) \<and>
    read_symlink P sb (d_link ent) = Inr extra \<longrightarrow>
      filter_entry P fs devstart flags ent =
        Pass (if DIR_SCAN_KEEP_TIME flags then sb
              else sb\<lparr>st_mtime := ucast (defaults_mtime fs)\<rparr>) extra \<and>
      (\<not> (S_ISDIR (st_mode sb) \<and> DIR_SCAN_NO_DIR flags) \<and>
       calloc_ok P (sizeof_node P + length (d_name ent) + 1
                    + (case extra of None \<Rightarrow> 0 | Some x \<Rightarrow> strlen x + 1)) \<and>
       (case cb of None \<Rightarrow> 0
        | Some f \<Rightarrow> f (Node (st_mode sb) (d_name ent)
                        (if DIR_SCAN_KEEP_TIME flags then clamp_mtime (st_mtime sb)
                         else defaults_mtime fs)
                        (st_uid sb) (st_gid sb) (map_option cstr extra) [])) = 0 \<longrightarrow>
         scan_entry P fs root devstart cb flags ent =
           Accepted (fstree_insert_sorted root
                       (Node (st_mode sb) (d_name ent)
                          (if DIR_SCAN_KEEP_TIME flags then clamp_mtime (st_mtime sb)
                           else defaults_mtime fs)
                          (st_uid sb) (st_gid sb) (map_option cstr extra) []))
                    (insert_index (children root) (d_name ent)) \<and>
         (\<not> S_ISDIR (st_mode sb) \<or> DIR_SCAN_NO_RECURSION flags \<longrightarrow>
            populate_entries P fs devstart cb flags [ent] False root =
              (None, fstree_insert_sorted root
                       (Node (st_mode sb) (d_name ent)
                          (if DIR_SCAN_KEEP_TIME flags then clamp_mtime (st_mtime sb)
                           else defaults_mtime fs)
                          (st_uid sb) (st_gid sb) (map_option cstr extra) [])))))"
proof (intro conjI impI)
  show "unat (clamp_mtime t) =
     (if sint t < 0 then 0 else if sint t > 4294967295 then 4294967295 else nat (sint t))"
    by (rule clamp_mtime_unat)
next
  assume "\<not> is_dot_name (e_name entry) \<and>
    \<not> (if S_ISDIR (e_mode entry) then DIR_SCAN_NO_DIR flags else DIR_SCAN_NO_FILE flags) \<and>
    calloc_ok P (sizeof_node P + length (e_name entry) + 1) \<and>
    (case cb of None \<Rightarrow> 0 | Some f \<Rightarrow> f (Node (e_mode entry) (e_name entry) 0 0 0 None [])) = 0"
  then show "add_node P fs root cb flags entry =
        (0, fstree_insert_sorted root
              (Node (e_mode entry) (e_name entry)
                 (if DIR_SCAN_KEEP_TIME flags then clamp_mtime (e_mtime entry)
                  else defaults_mtime fs) 0 0 None []))"
    by (simp add: add_node_def Let_def set_mod_time_def)
next
  assume f: "d_name ent \<noteq> ''..'' \<and> d_name ent \<noteq> ''.'' \<and> d_stat ent = Some sb \<and>
    \<not> type_excluded flags (st_mode sb) \<and>
    \<not> (DIR_SCAN_ONE_FILESYSTEM flags \<and> st_dev sb \<noteq> devstart) \<and>
    read_symlink P sb (d_link ent) = Inr extra"
  define sb' where
    "sb' = (if DIR_SCAN_KEEP_TIME flags then sb else sb\<lparr>st_mtime := ucast (defaults_mtime fs)\<rparr>)"
  define N where
    "N = Node (st_mode sb) (d_name ent)
           (if DIR_SCAN_KEEP_TIME flags then clamp_mtime (st_mtime sb) else defaults_mtime fs)
           (st_uid sb) (st_gid sb) (map_option cstr extra) []"
  define i where "i = insert_index (children root) (d_name ent)"
  have flt: "filter_entry P fs devstart flags ent = Pass sb' extra"
    using f by (simp add: filter_entry_def sb'_def)
  from flt[unfolded sb'_def]
  show "filter_entry P fs devstart flags ent =
        Pass (if DIR_SCAN_KEEP_TIME flags then sb
              else sb\<lparr>st_mtime := ucast (defaults_mtime fs)\<rparr>) extra" .
  assume m: "\<not> (S_ISDIR (st_mode sb) \<and> DIR_SCAN_NO_DIR flags) \<and>
       calloc_ok P (sizeof_node P + length (d_name ent) + 1
                    + (case extra of None \<Rightarrow> 0 | Some x \<Rightarrow> strlen x + 1)) \<and>
       (case cb of None \<Rightarrow> 0
        | Some f \<Rightarrow> f (Node (st_mode sb) (d_name ent)
                        (if DIR_SCAN_KEEP_TIME flags then clamp_mtime (st_mtime sb)
                         else defaults_mtime fs)
                        (st_uid sb) (st_gid sb) (map_option cstr extra) [])) = 0"
  have nn: "new_node (d_name ent) extra sb' = N"
    by (simp add: new_node_def clamp_mtime_default sb'_def N_def)
  have nm: "name N = d_name ent" by (simp add: N_def)
  have mk: "fstree_mknode P root (d_name ent) extra sb' = Some (fstree_insert_sorted root N, i)"
    using m by (simp add: fstree_mknode_def nn i_def)
  have nth: "children (fstree_insert_sorted root N) ! i = N"
    using nth_insert_sorted[of root N] by (simp add: nm i_def)
  have md: "st_mode sb' = st_mode sb" by (simp add: sb'_def)
  have nodir: "\<not> (S_ISDIR (st_mode sb') \<and> DIR_SCAN_NO_DIR flags)" using m md by simp
  have cbN: "(case cb of None \<Rightarrow> 0 | Some f \<Rightarrow> f N) = 0"
    using m unfolding N_def by blast
  have ret: "(case cb of None \<Rightarrow> 0 | Some f \<Rightarrow> f (children (fstree_insert_sorted root N) ! i)) = 0"
    using cbN by (cases cb) (simp_all add: nth)
  have se: "scan_entry P fs root devstart cb flags ent = Accepted (fstree_insert_sorted root N) i"
    using nodir by (auto simp: scan_entry_def flt mk ret Let_def)
  from se[unfolded N_def i_def]
  show "scan_entry P fs root devstart cb flags ent =
           Accepted (fstree_insert_sorted root
                       (Node (st_mode sb) (d_name ent)
                          (if DIR_SCAN_KEEP_TIME flags then clamp_mtime (st_mtime sb)
                           else defaults_mtime fs)
                          (st_uid sb) (st_gid sb) (map_option cstr extra) []))
                    (insert_index (children root) (d_name ent))" .
  assume leaf: "\<not> S_ISDIR (st_mode sb) \<or> DIR_SCAN_NO_RECURSION flags"
  have mN: "mode N = st_mode sb" by (simp add: N_def)
  have "populate_entries P fs devstart cb flags [ent] False root =
          populate_entries P fs devstart cb flags [] False (fstree_insert_sorted root N)"
    using leaf
    by (auto simp: populate_entries_Cons se nth mN simp del: populate_entries.simps)
  then have "populate_entries P fs devstart cb flags [ent] False root =
              (None, fstree_insert_sorted root N)"
    by simp
  from this[unfolded N_def]
  show "populate_entries P fs devstart cb flags [ent] False root =
              (None, fstree_insert_sorted root
                       (Node (st_mode sb) (d_name ent)
                          (if DIR_SCAN_KEEP_TIME flags then clamp_mtime (st_mtime sb)
                           else defaults_mtime fs)
                          (st_uid sb) (st_gid sb) (map_option cstr extra) []))" .
qed

theorem timestamp_policy_witness:
  "add_node lp64 fs7 empty_root None (no_flags\<lparr>DIR_SCAN_KEEP_TIME := True\<rparr>)
      \<lparr>e_name = ''f'', e_mode = 0x81A4, e_mtime = 100\<rparr>
     = (0, Node 0x41ED [] 0 0 0 None [Node 0x81A4 ''f'' 100 0 0 None []]) \<and>
   populate_entries lp64 fs7 1 None (no_flags\<lparr>DIR_SCAN_KEEP_TIME := True\<rparr>)
      [Dirent ''f'' (Some (stat_of 0x81A4 1 100)) None None] False empty_root
     = (None, Node 0x41ED [] 0 0 0 None [Node 0x81A4 ''f'' 100 0 0 None []]) \<and>
   add_node lp64 fs7 empty_root None (no_flags\<lparr>DIR_SCAN_KEEP_TIME := True\<rparr>)
      \<lparr>e_name = ''f'', e_mode = 0x81A4, e_mtime = 0x10000000000\<rparr>
     = (0, Node 0x41ED [] 0 0 0 None [Node 0x81A4 ''f'' 0xFFFFFFFF 0 0 None []]) \<and>
   populate_entries lp64 fs7 1 None (no_flags\<lparr>DIR_SCAN_KEEP_TIME := True\<rparr>)
      [Dirent ''f'' (Some (stat_of 0x81A4 1 0x10000000000)) None None] False empty_root
     = (None, Node 0x41ED [] 0 0 0 None [Node 0x81A4 ''f'' 0xFFFFFFFF 0 0 None []]) \<and>
   add_node lp64 fs7 empty_root None (no_flags\<lparr>DIR_SCAN_KEEP_TIME := True\<rparr>)
      \<lparr>e_name = ''f'', e_mode = 0x81A4, e_mtime = - 5\<rparr>
     = (0, Node 0x41ED [] 0 0 0 None [Node 0x81A4 ''f'' 0 0 0 None []]) \<and>
   populate_entries lp64 fs7 1 None (no_flags\<lparr>DIR_SCAN_KEEP_TIME := True\<rparr>)
      [Dirent ''f'' (Some (stat_of 0x81A4 1 (- 5))) None None] False empty_root
     = (None, Node 0x41ED [] 0 0 0 None [Node 0x81A4 ''f'' 0 0 0 None []]) \<and>
   add_node lp64 fs7 empty_root None no_flags
      \<lparr>e_name = ''f'', e_mode = 0x81A4, e_mtime = 100\<rparr>
     = (0, Node 0x41ED [] 0 0 0 None [Node 0x81A4 ''f'' 7 0 0 None []]) \<and>
   populate_entries lp64 fs7 1 None no_flags
      [Dirent ''f'' (Some (stat_of 0x81A4 1 100)) None None] False empty_root
     = (None, Node 0x41ED [] 0 0 0 None [Node 0x81A4 ''f'' 7 0 0 None []]) \<and>
   unat (clamp_mtime 100) = 100 \<and> unat (clamp_mtime 0x10000000000) = 4294967295 \<and>
   unat (clamp_mtime (- 5)) = 0"
proof -
  let ?keep = "no_flags\<lparr>DIR_SCAN_KEEP_TIME := True\<rparr>"
  have ins: "\<And>t. fstree_insert_sorted empty_root (Node 0x81A4 ''f'' t 0 0 None [])
               = Node 0x41ED [] 0 0 0 None [Node 0x81A4 ''f'' t 0 0 None []]"
    by (simp add: fstree_insert_sorted_def insert_index_def empty_root_def set_children_def)
  have dot: "\<not> is_dot_name ''f''" by (simp add: is_dot_name_def)
  have reg: "\<not> S_ISDIR (0x81A4 :: mode_t)" "\<not> S_ISLNK (0x81A4 :: mode_t)" by code_simp+
  have tk: "\<not> type_excluded ?keep 0x81A4" by code_simp
  have tn: "\<not> type_excluded no_flags 0x81A4" by code_simp
  have rl: "\<And>t. read_symlink lp64 (stat_of 0x81A4 1 t) None = Inr None"
    using reg by (simp add: read_symlink_def stat_of_def)
  have al: "\<And>n. calloc_ok lp64 n" by (simp add: lp64_def)
  have fk: "DIR_SCAN_KEEP_TIME ?keep" "\<not> DIR_SCAN_NO_FILE ?keep" "\<not> DIR_SCAN_NO_DIR ?keep"
    "\<not> DIR_SCAN_ONE_FILESYSTEM ?keep"
    by (simp_all add: no_flags_def)
  have fn: "\<not> DIR_SCAN_KEEP_TIME no_flags" "\<not> DIR_SCAN_NO_FILE no_flags"
    "\<not> DIR_SCAN_NO_DIR no_flags" "\<not> DIR_SCAN_ONE_FILESYSTEM no_flags"
    by (simp_all add: no_flags_def)
  have sm: "\<And>t. st_mode (stat_of 0x81A4 1 t) = 0x81A4" "\<And>t. st_mtime (stat_of 0x81A4 1 t) = t"
    "\<And>t. st_uid (stat_of 0x81A4 1 t) = 0" "\<And>t. st_gid (stat_of 0x81A4 1 t) = 0"
    by (simp_all add: stat_of_def)
  have d7: "defaults_mtime fs7 = 7" by (simp add: fs7_def)
  have c1: "clamp_mtime 100 = 100" by (simp add: clamp_mtime_def)
  have c2: "clamp_mtime 0x10000000000 = 0xFFFFFFFF" by (simp add: clamp_mtime_def)
  have c3: "clamp_mtime (- 5) = 0" by (simp add: clamp_mtime_def)
  have a1: "add_node lp64 fs7 empty_root None ?keep \<lparr>e_name = ''f'', e_mode = 0x81A4, e_mtime = 100\<rparr>
              = (0, Node 0x41ED [] 0 0 0 None [Node 0x81A4 ''f'' 100 0 0 None []]) \<and>
            populate_entries lp64 fs7 1 None ?keep
              [Dirent ''f'' (Some (stat_of 0x81A4 1 100)) None None] False empty_root
              = (None, Node 0x41ED [] 0 0 0 None [Node 0x81A4 ''f'' 100 0 0 None []]) \<and>
            unat (clamp_mtime 100) = 100"
    using timestamp_policy[where t = 100 and P = lp64 and fs = fs7 and root = empty_root
        and cb = None and flags = ?keep
        and entry = "\<lparr>e_name = ''f'', e_mode = 0x81A4, e_mtime = 100\<rparr>"
        and ent = "Dirent ''f'' (Some (stat_of 0x81A4 1 100)) None None"
        and sb = "stat_of 0x81A4 1 100" and devstart = 1 and extra = None]
    by (simp add: ins dot reg tk rl al fk sm c1 del: populate_entries.simps)
  have a2: "add_node lp64 fs7 empty_root None ?keep
              \<lparr>e_name = ''f'', e_mode = 0x81A4, e_mtime = 0x10000000000\<rparr>
              = (0, Node 0x41ED [] 0 0 0 None [Node 0x81A4 ''f'' 0xFFFFFFFF 0 0 None []]) \<and>
            populate_entries lp64 fs7 1 None ?keep
              [Dirent ''f'' (Some (stat_of 0x81A4 1 0x10000000000)) None None] False empty_root
              = (None, Node 0x41ED [] 0 0 0 None [Node 0x81A4 ''f'' 0xFFFFFFFF 0 0 None []]) \<and>
            unat (clamp_mtime 0x10000000000) = 4294967295"
    using timestamp_policy[where t = "0x10000000000" and P = lp64 and fs = fs7 and root = empty_root
        and cb = None and flags = ?keep
        and entry = "\<lparr>e_name = ''f'', e_mode = 0x81A4, e_mtime = 0x10000000000\<rparr>"
        and ent = "Dirent ''f'' (Some (stat_of 0x81A4 1 0x10000000000)) None None"
        and sb = "stat_of 0x81A4 1 0x10000000000" and devstart = 1 and extra = None]
    by (simp add: ins dot reg tk rl al fk sm c2 del: populate_entries.simps)
  have a3: "add_node lp64 fs7 empty_root None ?keep
              \<lparr>e_name = ''f'', e_mode = 0x81A4, e_mtime = - 5\<rparr>
              = (0, Node 0x41ED [] 0 0 0 None [Node 0x81A4 ''f'' 0 0 0 None []]) \<and>
            populate_entries lp64 fs7 1 None ?keep
              [Dirent ''f'' (Some (stat_of 0x81A4 1 (- 5))) None None] False empty_root
              = (None, Node 0x41ED [] 0 0 0 None [Node 0x81A4 ''f'' 0 0 0 None []]) \<and>
            unat (clamp_mtime (- 5)) = 0"
    using timestamp_policy[where t = "- 5" and P = lp64 and fs = fs7 and root = empty_root
        and cb = None and flags = ?keep
        and entry = "\<lparr>e_name = ''f'', e_mode = 0x81A4, e_mtime = - 5\<rparr>"
        and ent = "Dirent ''f'' (Some (stat_of 0x81A4 1 (- 5))) None None"
        and sb = "stat_of 0x81A4 1 (- 5)" and devstart = 1 and extra = None]
    by (simp add: ins dot reg tk rl al fk sm c3 del: populate_entries.simps)
  have a4: "add_node lp64 fs7 empty_root None no_flags
              \<lparr>e_name = ''f'', e_mode = 0x81A4, e_mtime = 100\<rparr>
              = (0, Node 0x41ED [] 0 0 0 None [Node 0x81A4 ''f'' 7 0 0 None []]) \<and>
            populate_entries lp64 fs7 1 None no_flags
              [Dirent ''f'' (Some (stat_of 0x81A4 1 100)) None None] False empty_root
              = (None, Node 0x41ED [] 0 0 0 None [Node 0x81A4 ''f'' 7 0 0 None []])"
    using timestamp_policy[where t = 100 and P = lp64 and fs = fs7 and root = empty_root
        and cb = None and flags = no_flags
        and entry = "\<lparr>e_name = ''f'', e_mode = 0x81A4, e_mtime = 100\<rparr>"
        and ent = "Dirent ''f'' (Some (stat_of 0x81A4 1 100)) None None"
        and sb = "stat_of 0x81A4 1 100" and devstart = 1 and extra = None]
    by (simp add: ins dot reg tn rl al fn sm d7 del: populate_entries.simps)
  from a1 a2 a3 a4 show ?thesis by (simp del: populate_entries.simps)
qed

text \<open>
  Claim C3, as the code has it. For a directory entry that reaches this step while
  \<open>DIR_SCAN_NO_DIR\<close> is set, no node is made and the callback is not consulted. If the
  destination has no child of that name, the entry is passed over. If it has one, that
  child is accepted; the walker descends into it when recursion is enabled and the child
  is itself a directory node (failing if the directory cannot be opened), and otherwise
  goes on with the next entry.
\<close>

theorem exclude_directories_overlay:
  assumes "filter_entry P fs devstart flags ent = Pass sb extra"
    and "S_ISDIR (st_mode sb)" and "DIR_SCAN_NO_DIR flags"
  shows "scan_entry P fs root devstart cb flags ent = scan_entry P fs root devstart None flags ent \<and>
         (fstree_get_node_by_path root (d_name ent) = None \<longrightarrow>
            scan_entry P fs root devstart cb flags ent = Continue root \<and>
            populate_entries P fs devstart cb flags (ent # es) rd_fails root
              = populate_entries P fs devstart cb flags es rd_fails root) \<and>
         (fstree_get_node_by_path root (d_name ent) = Some n \<longrightarrow>
            scan_entry P fs root devstart cb flags ent = Accepted root n \<and>
            n < length (children root) \<and> name (children root ! n) = d_name ent \<and>
            populate_entries P fs devstart cb flags (ent # es) rd_fails root =
              (if S_ISDIR (mode (children root ! n)) \<and> \<not> DIR_SCAN_NO_RECURSION flags then
                 (case d_open ent of
                    None \<Rightarrow> (Some Fail_open, root)
                  | Some childfd \<Rightarrow>
                      (case populate_dir P fs devstart cb flags childfd (children root ! n) of
                         (Some f, n') \<Rightarrow> (Some f, set_child root n n')
                       | (None, n') \<Rightarrow>
                           populate_entries P fs devstart cb flags es rd_fails (set_child root n n')))
               else populate_entries P fs devstart cb flags es rd_fails root))"
proof -
  have a: "scan_entry P fs root devstart cb' flags ent =
            (case fstree_get_node_by_path root (d_name ent) of
               None \<Rightarrow> Continue root | Some n \<Rightarrow> Accepted root n)" for cb'
    using assms by (simp add: scan_entry_def)
  have b: "fstree_get_node_by_path root (d_name ent) = Some n \<Longrightarrow>
             n < length (children root) \<and> name (children root ! n) = d_name ent"
    by (simp add: fstree_get_node_by_path_def child_index_Some)
  show ?thesis
    using b by (auto simp: a populate_entries_Cons simp del: populate_entries.simps)
qed

lemma set_children_same [simp]: "set_children n (children n) = n"
  by (cases n) (simp add: set_children_def)

lemma set_children_twice [simp]: "set_children (set_children n cs) cs' = set_children n cs'"
  by (simp add: set_children_def)












lemma on_device_prune:
  "on_device_entries dev (prune_entries dev es)"
  "case prune_dirent dev e of Dirent nm sb lnk sub \<Rightarrow> (case sub of None \<Rightarrow> True | Some d \<Rightarrow> on_device dev d)"
  "on_device dev (prune_dir dev d)"
proof (induction dev es and dev e and dev d rule: prune_entries_prune_dirent_prune_dir.induct)
  case (1 dev)
  then show ?case by simp
next
  case (2 dev e es)
  then show ?case
    by (cases "prune_dirent dev e"; cases e) (auto simp: foreign_def split: option.splits)
next
  case (3 dev nm sb lnk sub)
  then show ?case by (auto split: option.splits)
next
  case (4 dev dv ok es rd_fails)
  then show ?case by simp
qed

lemma prune_dirent_fields [simp]:
  "d_name (prune_dirent dev e) = d_name e" "d_stat (prune_dirent dev e) = d_stat e"
  "d_link (prune_dirent dev e) = d_link e"
  "d_open (prune_dirent dev e) = map_option (prune_dir dev) (d_open e)"
  by (cases e; simp split: option.split)+

lemma filter_entry_prune:
  "filter_entry P fs devstart flags (prune_dirent dev e) = filter_entry P fs devstart flags e"
  by (simp add: filter_entry_def cong: option.case_cong if_cong)

lemma scan_entry_prune:
  "scan_entry P fs root devstart cb flags (prune_dirent dev e) = scan_entry P fs root devstart cb flags e"
  by (simp add: scan_entry_def filter_entry_prune cong: filtered.case_cong if_cong)

lemma filter_entry_foreign:
  "DIR_SCAN_ONE_FILESYSTEM flags \<Longrightarrow> d_stat ent = Some sb \<Longrightarrow> st_dev sb \<noteq> devstart \<Longrightarrow>
     filter_entry P fs devstart flags ent = Skip"
  by (simp add: filter_entry_def)

lemma populate_prune:
  "DIR_SCAN_ONE_FILESYSTEM flags \<Longrightarrow>
     populate_entries P fs devstart cb flags (prune_entries devstart es) rd_fails root
       = populate_entries P fs devstart cb flags es rd_fails root"
  "DIR_SCAN_ONE_FILESYSTEM flags \<Longrightarrow>
     populate_dir P fs devstart cb flags (prune_dir devstart d) root
       = populate_dir P fs devstart cb flags d root"
proof (induction P fs devstart cb flags es rd_fails root and P fs devstart cb flags d root
       rule: populate_entries_populate_dir.induct)
  case (1 P fs devstart cb flags rd_fails root)
  then show ?case by simp
next
  case (2 P fs devstart cb flags nm sb lnk sub es rd_fails root)
  let ?e = "Dirent nm sb lnk sub"
  show ?case
  proof (cases "foreign devstart ?e")
    case True
    then have "scan_entry P fs root devstart cb flags ?e = Continue root"
      using "2.prems" by (auto simp: foreign_def scan_entry_def filter_entry_foreign split: option.splits)
    then show ?thesis using True "2.IH"(1) "2.prems" by simp
  next
    case False
    have se: "scan_entry P fs root devstart cb flags (prune_dirent devstart ?e)
                = scan_entry P fs root devstart cb flags ?e"
      by (rule scan_entry_prune)
    show ?thesis
    proof (cases "scan_entry P fs root devstart cb flags ?e")
      case (Continue root')
      then show ?thesis using False se "2.IH"(1) "2.prems"
        by (simp add: populate_entries_Cons del: populate_entries.simps prune_dirent.simps)
    next
      case (Abort f root')
      then show ?thesis using False se
        by (simp add: populate_entries_Cons del: populate_entries.simps prune_dirent.simps)
    next
      case (Accepted root' n)
      show ?thesis
      proof (cases "S_ISDIR (mode (children root' ! n)) \<and> \<not> DIR_SCAN_NO_RECURSION flags")
        case nodesc: False
        then show ?thesis using False se Accepted "2.IH"(4) "2.prems"
          by (auto simp: populate_entries_Cons simp del: populate_entries.simps prune_dirent.simps)
      next
        case desc: True
        show ?thesis
        proof (cases sub)
          case None
          then show ?thesis using False se Accepted desc
            by (simp add: populate_entries_Cons del: populate_entries.simps)
        next
          case (Some childfd)
          have d: "populate_dir P fs devstart cb flags (prune_dir devstart childfd) (children root' ! n)
                   = populate_dir P fs devstart cb flags childfd (children root' ! n)"
            using "2.IH"(2)[OF Accepted desc Some] "2.prems" by simp
          show ?thesis
          proof (cases "populate_dir P fs devstart cb flags childfd (children root' ! n)")
            case (Pair r n')
            show ?thesis
            proof (cases r)
              case None
              have "populate_entries P fs devstart cb flags (prune_entries devstart es) rd_fails (set_child root' n n')
                   = populate_entries P fs devstart cb flags es rd_fails (set_child root' n n')"
                using "2.IH"(3)[OF Accepted desc Some] Pair None "2.prems" by simp
              then show ?thesis using False se Accepted desc Some d Pair None
                by (simp add: populate_entries_Cons del: populate_entries.simps)
            next
              case (Some f)
              then show ?thesis using False se Accepted desc \<open>sub = Some childfd\<close> d Pair
                by (simp add: populate_entries_Cons del: populate_entries.simps)
            qed
          qed
        qed
      qed
    qed
  qed
next
  case (3 P fs devstart cb flags dv ok es rd_fails root)
  then show ?case by simp
qed


theorem exclude_directories_overlay_witness:
  "filter_entry lp64 fs7 1 no_dir_flags (directory ''etc'' [reg_file ''shadow''])
     = Pass (stat_of 0x41ED 1 7) None \<and>
   S_ISDIR (st_mode (stat_of 0x41ED 1 7)) \<and> DIR_SCAN_NO_DIR no_dir_flags \<and>
   fstree_get_node_by_path
       (Node 0x41ED [] 0 0 0 None
          [Node 0x41ED ''etc'' 7 0 0 None [Node 0x81A4 ''passwd'' 7 0 0 None []]]) ''etc'' = Some 0 \<and>
   scan_entry lp64 fs7
       (Node 0x41ED [] 0 0 0 None
          [Node 0x41ED ''etc'' 7 0 0 None [Node 0x81A4 ''passwd'' 7 0 0 None []]])
       1 (Some abort_y) no_dir_flags (directory ''etc'' [reg_file ''shadow''])
     = Accepted (Node 0x41ED [] 0 0 0 None
          [Node 0x41ED ''etc'' 7 0 0 None [Node 0x81A4 ''passwd'' 7 0 0 None []]]) 0 \<and>
   populate_entries lp64 fs7 1 None no_dir_flags
       [directory ''etc'' [reg_file ''shadow''], directory ''tmp'' [reg_file ''x'']] False
       (Node 0x41ED [] 0 0 0 None
          [Node 0x41ED ''etc'' 7 0 0 None [Node 0x81A4 ''passwd'' 7 0 0 None []]])
     = (None, Node 0x41ED [] 0 0 0 None
          [Node 0x41ED ''etc'' 7 0 0 None
             [Node 0x81A4 ''passwd'' 7 0 0 None [], Node 0x81A4 ''shadow'' 7 0 0 None []]])"
proof -
  let ?root = "Node 0x41ED [] 0 0 0 None
          [Node 0x41ED ''etc'' 7 0 0 None [Node 0x81A4 ''passwd'' 7 0 0 None []]]"
  have h1: "filter_entry lp64 fs7 1 no_dir_flags (directory ''etc'' [reg_file ''shadow''])
     = Pass (stat_of 0x41ED 1 7) None"
    by code_simp
  have h2: "S_ISDIR (st_mode (stat_of 0x41ED 1 7))" by code_simp
  have h3: "DIR_SCAN_NO_DIR no_dir_flags" by code_simp
  have h4: "fstree_get_node_by_path ?root (d_name (directory ''etc'' [reg_file ''shadow''])) = Some 0"
    by code_simp
  have full: "populate_entries lp64 fs7 1 None no_dir_flags
       [directory ''etc'' [reg_file ''shadow''], directory ''tmp'' [reg_file ''x'']] False ?root
     = (None, Node 0x41ED [] 0 0 0 None
          [Node 0x41ED ''etc'' 7 0 0 None
             [Node 0x81A4 ''passwd'' 7 0 0 None [], Node 0x81A4 ''shadow'' 7 0 0 None []]])"
    by code_simp
  from exclude_directories_overlay[OF h1 h2 h3, of ?root "Some abort_y" "[]" False 0] h4
  have "scan_entry lp64 fs7 ?root 1 (Some abort_y) no_dir_flags (directory ''etc'' [reg_file ''shadow''])
     = Accepted ?root 0"
    by blast
  with h1 h2 h3 h4 full show ?thesis by (simp add: directory_def)
qed

text \<open>
  Claim C3 as stated has the walker descend into every child found by name. Here the child
  called \<open>etc\<close> is a regular file node, the entry \<open>etc\<close> is a directory holding
  \<open>passwd\<close>, and recursion is enabled: the scan succeeds and leaves the tree as it was,
  although populating that child would have added \<open>passwd\<close>.
\<close>

theorem exclude_directories_no_descent:
  "fstree_get_node_by_path (Node 0x41ED [] 0 0 0 None [Node 0x81A4 ''etc'' 7 0 0 None []]) ''etc''
     = Some 0 \<and>
   \<not> DIR_SCAN_NO_RECURSION no_dir_flags \<and>
   populate_entries lp64 fs7 1 None no_dir_flags [directory ''etc'' [reg_file ''passwd'']] False
       (Node 0x41ED [] 0 0 0 None [Node 0x81A4 ''etc'' 7 0 0 None []])
     = (None, Node 0x41ED [] 0 0 0 None [Node 0x81A4 ''etc'' 7 0 0 None []]) \<and>
   populate_dir lp64 fs7 1 None no_dir_flags (Dir (Some 1) True [reg_file ''passwd''] False)
       (Node 0x81A4 ''etc'' 7 0 0 None [])
     = (None, Node 0x81A4 ''etc'' 7 0 0 None [Node 0x81A4 ''passwd'' 7 0 0 None []])"
  by code_simp


text \<open>
  Claim C5. With \<open>DIR_SCAN_ONE_FILESYSTEM\<close> set, an entry of any type whose device is
  not \<open>devstart\<close> is passed over. The device that \<open>fstat\<close> reports for a directory
  entered during the recursion plays no part. The whole scan, at every depth, gives the
  result of scanning the hierarchy from which every entry on another device has been
  removed, and in that hierarchy every entry with a \<open>stat\<close> result is on \<open>devstart\<close>.
  \<open>fstree_from_dir\<close> takes \<open>devstart\<close> from the directory it opens.
\<close>

theorem one_filesystem:
  assumes "DIR_SCAN_ONE_FILESYSTEM flags"
  shows "(d_stat ent = Some sb \<and> st_dev sb \<noteq> devstart \<longrightarrow>
            filter_entry P fs devstart flags ent = Skip \<and>
            populate_entries P fs devstart cb flags (ent # es) rd_fails root
              = populate_entries P fs devstart cb flags es rd_fails root) \<and>
         populate_dir P fs devstart cb flags (Dir dv ok es rd_fails) root
           = populate_dir P fs devstart cb flags (Dir dv' ok es rd_fails) root \<and>
         populate_dir P fs devstart cb flags d root
           = populate_dir P fs devstart cb flags (prune_dir devstart d) root \<and>
         on_device devstart (prune_dir devstart d) \<and>
         (S_ISDIR (mode root) \<and> sys_open os path = Some d \<and> fstat_dev d = Some dev \<longrightarrow>
            fstree_from_dir P os fs root path cb flags
              = populate_dir P fs dev cb flags (prune_dir dev d) root)"
proof -
  have a: "d_stat ent = Some sb \<and> st_dev sb \<noteq> devstart \<longrightarrow>
            filter_entry P fs devstart flags ent = Skip \<and>
            populate_entries P fs devstart cb flags (ent # es) rd_fails root
              = populate_entries P fs devstart cb flags es rd_fails root"
    using assms
    by (auto simp: filter_entry_foreign populate_entries_Cons scan_entry_def
             simp del: populate_entries.simps)
  have b: "populate_dir P fs devstart cb flags (Dir dv ok es rd_fails) root
           = populate_dir P fs devstart cb flags (Dir dv' ok es rd_fails) root"
    by simp
  have c: "populate_dir P fs dev' cb flags d root
           = populate_dir P fs dev' cb flags (prune_dir dev' d) root" for dev'
    using populate_prune(2)[OF assms, of P fs dev' cb d root] by simp
  have e: "S_ISDIR (mode root) \<and> sys_open os path = Some d \<and> fstat_dev d = Some dev \<longrightarrow>
            fstree_from_dir P os fs root path cb flags
              = populate_dir P fs dev cb flags (prune_dir dev d) root"
    using c[of dev] by (simp add: fstree_from_dir_def fstree_from_subdir_def)
  from a b c[of devstart] on_device_prune(3)[of devstart d] e show ?thesis by blast
qed

theorem one_filesystem_witness:
  "DIR_SCAN_ONE_FILESYSTEM one_fs_flags \<and>
   d_stat (on_dev 2 (directory ''mnt'' [reg_file ''x''])) = Some (stat_of 0x41ED 2 100) \<and>
   filter_entry lp64 fs7 1 one_fs_flags (on_dev 2 (directory ''mnt'' [reg_file ''x''])) = Skip \<and>
   fstree_from_dir lp64
       (Dir (Some 1) True
          [reg_file ''a'', on_dev 2 (directory ''mnt'' [reg_file ''x'']),
           directory ''s'' [on_dev 2 (reg_file ''y''), reg_file ''z'']] False)
       fs7 empty_root [] None one_fs_flags
     = (None, Node 0x41ED [] 0 0 0 None
                [Node 0x81A4 ''a'' 7 0 0 None [],
                 Node 0x41ED ''s'' 7 0 0 None [Node 0x81A4 ''z'' 7 0 0 None []]])"
proof -
  have h: "DIR_SCAN_ONE_FILESYSTEM one_fs_flags" by code_simp
  have s: "d_stat (on_dev 2 (directory ''mnt'' [reg_file ''x''])) = Some (stat_of 0x41ED 2 100)"
    by code_simp
  have d: "st_dev (stat_of 0x41ED 2 100) \<noteq> 1" by (simp add: stat_of_def)
  from one_filesystem[OF h, of "on_dev 2 (directory ''mnt'' [reg_file ''x''])"
      "stat_of 0x41ED 2 100" 1 lp64 fs7] s d
  have f: "filter_entry lp64 fs7 1 one_fs_flags (on_dev 2 (directory ''mnt'' [reg_file ''x''])) = Skip"
    by blast
  have full: "fstree_from_dir lp64
       (Dir (Some 1) True
          [reg_file ''a'', on_dev 2 (directory ''mnt'' [reg_file ''x'']),
           directory ''s'' [on_dev 2 (reg_file ''y''), reg_file ''z'']] False)
       fs7 empty_root [] None one_fs_flags
     = (None, Node 0x41ED [] 0 0 0 None
                [Node 0x81A4 ''a'' 7 0 0 None [],
                 Node 0x41ED ''s'' 7 0 0 None [Node 0x81A4 ''z'' 7 0 0 None []]])"
    by code_simp
  from h s f full show ?thesis by simp
qed

text \<open>
  Claim C2 at \<open>root/x/y/z\<close> with a callback that returns \<open>-1\<close> for \<open>y\<close>. The POSIX
  walker fails, and the node \<open>y\<close> is still linked below \<open>x\<close>; the portable walker, given
  the same directory, fails with \<open>y\<close> freed and never linked.
\<close>

theorem posix_abort_leaves_node:
  "fstree_from_dir lp64
       (Dir (Some 1) True [directory ''x'' [directory ''y'' [reg_file ''z'']]] False)
       fs7 empty_root [] (Some abort_y) no_flags
     = (Some Fail_callback,
        Node 0x41ED [] 0 0 0 None
          [Node 0x41ED ''x'' 7 0 0 None [Node 0x41ED ''y'' 7 0 0 None []]]) \<and>
   fstree_from_dir_portable 3 lp64
       (Dir (Some 1) True [directory ''x'' [directory ''y'' [reg_file ''z'']]] False)
       fs7 (Some abort_y) no_flags empty_root []
     = Some (- 1, Node 0x41ED [] 0 0 0 None [Node 0x41ED ''x'' 7 0 0 None []])"
  by code_simp

text \<open>
  Claim C8 at a destination that is a regular file node. \<open>fstree_from_subdir\<close> of the
  portable walker scans \<open>d\<close> into it and returns 0; the one of the POSIX walker returns
  \<open>-1\<close> without touching the node.
\<close>

theorem portable_subdir_accepts_file_node:
  "\<not> S_ISDIR (mode (Node 0x81A4 ''f'' 7 0 0 None [])) \<and>
   fstree_from_subdir_portable 2 lp64
       (Dir (Some 1) True [directory ''d'' [reg_file ''a'']] False)
       fs7 None no_flags (Node 0x81A4 ''f'' 7 0 0 None []) [] (Some ''d'')
     = Some (0, Node 0x81A4 ''f'' 7 0 0 None [Node 0x81A4 ''a'' 7 0 0 None []]) \<and>
   fstree_from_subdir lp64
       (Dir (Some 1) True [directory ''d'' [reg_file ''a'']] False)
       fs7 (Node 0x81A4 ''f'' 7 0 0 None []) [] (Some ''d'') None no_flags
     = (Some Fail_not_a_directory, Node 0x81A4 ''f'' 7 0 0 None [])"
  by code_simp

subsection \<open>The two walkers on a plain directory\<close>









lemma leaf_fields [simp]:
  "name (leaf fs flags e) = d_name e" "children (leaf fs flags e) = []"
  "slink_target (leaf fs flags e) = None"
  by (simp_all add: leaf_def split: option.splits)

lemma leaf_mode: "d_stat e = Some sb \<Longrightarrow> mode (leaf fs flags e) = st_mode sb"
  by (simp add: leaf_def)

lemma tree_entry_fields [simp]:
  "name (tree_entry fs flags e) = d_name e" "mode (tree_entry fs flags e) = mode (leaf fs flags e)"
  by (cases e; simp)+

lemma set_children_nil_leaf [simp]: "set_children (leaf fs flags e) [] = leaf fs flags e"
  using set_children_same[of "leaf fs flags e"] by simp

lemma ins_sorted_length: "insert_index cs nm \<le> length cs"
  by (rule insert_index_le)







lemma zero_ids_fields [simp]:
  "name (zero_ids n) = name n" "mode (zero_ids n) = mode n" "mod_time (zero_ids n) = mod_time n"
  "slink_target (zero_ids n) = slink_target n" "children (zero_ids n) = map zero_ids (children n)"
  by (cases n; simp)+






















end
